theory Spec2Isabelle
  imports Main "HOL-Library.Sublist" "HOL-Library.Char_ord" "HOL-Library.List_Lexorder"
    "HOL-Library.Multiset"
begin

section \<open>Python string primitives used by the mail code\<close>

text \<open>
  Python \<open>str\<close> values are modelled as \<open>string\<close>. Only the operations the sources call
  are embedded: \<open>sub in s\<close>, \<open>s.replace(old, new)\<close>, \<open>s.split(c)\<close> with a one-character
  separator, \<open>sep.join(xs)\<close> and \<open>s.endswith(suf)\<close> (the latter is \<open>suffix\<close>).
\<close>

datatype py_error =
    IndexError
  | ValueError string
  | OSError string
  | JSONDecodeError string
  | ParseError string
  | TypeError string
  | UnicodeEncodeError string
  | SMTPException string

text \<open>\<open>sub in s\<close>: some position of \<open>s\<close> starts with \<open>sub\<close>.\<close>

fun str_in :: "string \<Rightarrow> string \<Rightarrow> bool" where
  "str_in sub [] = (sub = [])"
| "str_in sub (c # cs) = (prefix sub (c # cs) \<or> str_in sub cs)"

text \<open>
  \<open>s.replace(old, new)\<close>: the leftmost occurrence of \<open>old\<close> is replaced and the scan
  resumes behind it, so occurrences never overlap. An empty \<open>old\<close> inserts \<open>new\<close> before
  every character and at the end.
\<close>

function str_replace :: "string \<Rightarrow> string \<Rightarrow> string \<Rightarrow> string" where
  "str_replace old new s =
     (if old = [] then new @ concat (map (\<lambda>c. c # new) s)
      else if s = [] then []
      else if prefix old s then new @ str_replace old new (drop (length old) s)
      else hd s # str_replace old new (tl s))"
  by pat_completeness auto
termination
  by (relation "measure (\<lambda>(old, new, s). length s)") auto

declare str_replace.simps [simp del]

text \<open>
  \<open>s.split(c)\<close> for a one-character separator \<open>c\<close>: the pieces between the occurrences
  of \<open>c\<close>; the result always has at least one piece.
\<close>

fun str_split :: "char \<Rightarrow> string \<Rightarrow> string list" where
  "str_split c [] = [[]]"
| "str_split c (x # xs) =
     (if x = c then [] # str_split c xs
      else (case str_split c xs of
              [] \<Rightarrow> [[x]]
            | p # ps \<Rightarrow> (x # p) # ps))"

text \<open>\<open>sep.join(xs)\<close>.\<close>

fun str_join :: "string \<Rightarrow> string list \<Rightarrow> string" where
  "str_join sep [] = []"
| "str_join sep [x] = x"
| "str_join sep (x # y # ys) = x @ sep @ str_join sep (y # ys)"

text \<open>\<open>xs[i]\<close> for \<open>i \<ge> 0\<close>; out of range raises \<open>IndexError\<close>.\<close>

fun py_index :: "'a list \<Rightarrow> nat \<Rightarrow> py_error + 'a" where
  "py_index [] i = Inl IndexError"
| "py_index (x # xs) 0 = Inr x"
| "py_index (x # xs) (Suc i) = py_index xs i"

section \<open>Address validation and the mailbox directory codec\<close>

text \<open>
  \<open>CustomSMTPHandler.validate_email\<close> and \<open>SMTPClient.validate_email\<close> have the same body:
  \<^verbatim>\<open>if '@' in email and '.' in email.split('@')[1]: return True\<close>
  \<^verbatim>\<open>return False\<close>
\<close>

definition validate_email :: "string \<Rightarrow> py_error + bool" where
  "validate_email email =
     (if str_in ''@'' email then
        (case py_index (str_split CHR ''@'' email) (Suc 0) of
           Inl e \<Rightarrow> Inl e
         | Inr domain \<Rightarrow> if str_in ''.'' domain then Inr True else Inr False)
      else Inr False)"

text \<open>
  \<open>deliver_to_mailbox\<close> and \<open>load_emails\<close>:
  \<^verbatim>\<open>recipient.replace('@', '_at_').replace('.', '_')\<close>
\<close>

definition encode :: "string \<Rightarrow> string" where
  "encode recipient = str_replace ''.'' ''_'' (str_replace ''@'' ''_at_'' recipient)"

text \<open>
  \<open>refresh_mailbox\<close>:
  \<^verbatim>\<open>d.replace('_at_', '@').replace('_', '.')\<close>
\<close>

definition decode :: "string \<Rightarrow> string" where
  "decode d = str_replace ''_'' ''.'' (str_replace ''_at_'' ''@'' d)"

text \<open>
  The EmailAddress contract in the words of the specification: exactly one \<open>@\<close>, and the
  substring after the last \<open>@\<close> contains at least one dot.
\<close>

definition after_last_at :: "string \<Rightarrow> string" where
  "after_last_at s = rev (takeWhile (\<lambda>c. c \<noteq> CHR ''@'') (rev s))"

definition EmailAddress_contract :: "string \<Rightarrow> bool" where
  "EmailAddress_contract s =
     (count_list s CHR ''@'' = 1 \<and> CHR ''.'' \<in> set (after_last_at s))"

section \<open>The server's world: clock, storage and log\<close>

text \<open>
  \<open>datetime.now()\<close> reads the wall clock. The two renderings the server uses are
  \<open>strftime('%Y%m%d_%H%M%S_%f')\<close> (fixed-width, zero-padded fields) and \<open>isoformat()\<close>
  (which leaves the fraction out when the microsecond field is zero). The fields of a
  reading lie in their calendar ranges, so each fits its width.
\<close>

record datetime =
  year :: nat
  month :: nat
  day :: nat
  hour :: nat
  minute :: nat
  second :: nat
  microsecond :: nat

definition digit :: "nat \<Rightarrow> char" where
  "digit n = ''0123456789'' ! (n mod 10)"

definition pad2 :: "nat \<Rightarrow> string" where
  "pad2 n = [digit (n div 10), digit n]"

definition pad4 :: "nat \<Rightarrow> string" where
  "pad4 n = [digit (n div 1000), digit (n div 100), digit (n div 10), digit n]"

definition pad6 :: "nat \<Rightarrow> string" where
  "pad6 n = [digit (n div 100000), digit (n div 10000), digit (n div 1000),
             digit (n div 100), digit (n div 10), digit n]"

definition strftime_stamp :: "datetime \<Rightarrow> string" where
  "strftime_stamp t =
     pad4 (year t) @ pad2 (month t) @ pad2 (day t) @ ''_'' @
     pad2 (hour t) @ pad2 (minute t) @ pad2 (second t) @ ''_'' @ pad6 (microsecond t)"

definition isoformat :: "datetime \<Rightarrow> string" where
  "isoformat t =
     pad4 (year t) @ ''-'' @ pad2 (month t) @ ''-'' @ pad2 (day t) @ ''T'' @
     pad2 (hour t) @ '':'' @ pad2 (minute t) @ '':'' @ pad2 (second t) @
     (if microsecond t = 0 then [] else ''.'' @ pad6 (microsecond t))"

text \<open>
  A stored file is either raw message bytes or a JSON object, its fields in the order
  of the file. The server writes string fields only; a file that came from elsewhere may
  hold a number or \<open>null\<close> in a field (arrays and nested objects as field values are
  left out).
\<close>

datatype json_value = JStr string | JNum int | JNull

type_synonym metadata = "(string \<times> json_value) list"

datatype file_content = RawData string | JsonData metadata

datatype io_op = Makedirs string | OpenWrite string | WriteData string

datatype server_log =
    Info_Receiving
  | Info_Sender string
  | Info_Recipients "string list"
  | Info_Subject string
  | Info_Delivered string
  | Warning_InvalidRecipient string
  | Info_Completed
  | Info_Saved string
  | Error_Delivering py_error
  | Error_Processing py_error

record world =
  files :: "string \<rightharpoonup> file_content"
  dirs :: "string set"
  ticks :: nat
  logs :: "server_log list"

text \<open>
  What the program cannot decide is a parameter: the clock's successive readings, the
  operating system's refusals (permissions, a full disk, a parent that is no directory;
  they may depend on the current state), and the \<open>email\<close> package's parser. A parsed
  message is its header lookup \<open>msg.get\<close>: a header is absent, has a value, or cannot
  be read (with the default policy the lookup parses the header and may raise on content
  the parser accepted).
\<close>

record env =
  clock :: "nat \<Rightarrow> datetime"
  fault :: "world \<Rightarrow> io_op \<Rightarrow> bool"
  parsestr :: "string \<Rightarrow> py_error + (string \<Rightarrow> py_error + string option)"

text \<open>
  A statement sequence that may raise is a function from the state to an outcome and the
  state it leaves behind: what was written before an exception stays written.
\<close>

type_synonym ('a, 's) io = "'s \<Rightarrow> (py_error + 'a) \<times> 's"

definition ret :: "'a \<Rightarrow> ('a, 's) io" where
  "ret x w = (Inr x, w)"

definition raise :: "py_error \<Rightarrow> ('a, 's) io" where
  "raise e w = (Inl e, w)"

definition lift :: "py_error + 'a \<Rightarrow> ('a, 's) io" where
  "lift r w = (r, w)"

definition bind :: "('a, 's) io \<Rightarrow> ('a \<Rightarrow> ('b, 's) io) \<Rightarrow> ('b, 's) io" where
  "bind m f w = (case m w of (Inl e, w') \<Rightarrow> (Inl e, w') | (Inr x, w') \<Rightarrow> f x w')"

definition try_except :: "('a, 's) io \<Rightarrow> (py_error \<Rightarrow> ('a, 's) io) \<Rightarrow> ('a, 's) io" where
  "try_except m h w = (case m w of (Inl e, w') \<Rightarrow> h e w' | (Inr x, w') \<Rightarrow> (Inr x, w'))"

definition logging :: "server_log \<Rightarrow> (unit, world) io" where
  "logging l w = (Inr (), w\<lparr>logs := logs w @ [l]\<rparr>)"

definition datetime_now :: "env \<Rightarrow> (datetime, world) io" where
  "datetime_now E w = (Inr (clock E (ticks w)), w\<lparr>ticks := Suc (ticks w)\<rparr>)"

definition os_path_exists :: "string \<Rightarrow> (bool, world) io" where
  "os_path_exists p w = (Inr (p \<in> dirs w \<or> files w p \<noteq> None), w)"

text \<open>\<open>os.path.join(a, b)\<close> on POSIX; an absolute \<open>b\<close> discards \<open>a\<close>.\<close>

definition os_path_join :: "string \<Rightarrow> string \<Rightarrow> string" where
  "os_path_join a b =
     (if prefix ''/'' b then b
      else if a = [] \<or> suffix ''/'' a then a @ b
      else a @ ''/'' @ b)"

text \<open>The proper ancestors of a path: its prefixes in front of a separator.\<close>

fun ancestors :: "string \<Rightarrow> string \<Rightarrow> string list" where
  "ancestors acc [] = []"
| "ancestors acc (c # cs) =
     (if c = CHR ''/'' \<and> acc \<noteq> [] then [rev acc] else []) @ ancestors (c # acc) cs"

definition os_makedirs :: "env \<Rightarrow> string \<Rightarrow> (unit, world) io" where
  "os_makedirs E p w =
     (if fault E w (Makedirs p) then (Inl (OSError p), w)
      else if p \<in> dirs w \<or> files w p \<noteq> None then (Inl (OSError p), w)
      else (Inr (), w\<lparr>dirs := dirs w \<union> set (ancestors [] p) \<union> {p}\<rparr>))"

text \<open>
  \<open>with open(p, 'wb') as f: f.write(c)\<close>. A refused \<open>open\<close> changes nothing; a write
  that fails after the file was opened leaves it truncated.
\<close>

definition write_file :: "env \<Rightarrow> string \<Rightarrow> file_content \<Rightarrow> (unit, world) io" where
  "write_file E p c w =
     (if fault E w (OpenWrite p) then (Inl (OSError p), w)
      else if fault E w (WriteData p)
        then (Inl (OSError p), w\<lparr>files := (files w)(p \<mapsto> RawData [])\<rparr>)
      else (Inr (), w\<lparr>files := (files w)(p \<mapsto> c)\<rparr>))"

section \<open>The SMTP handler\<close>

record envelope =
  mail_from :: string
  rcpt_tos :: "string list"
  content :: string

definition email_filename_of :: "string \<Rightarrow> string" where
  "email_filename_of timestamp = ''email_'' @ timestamp @ ''.eml''"

definition metadata_filename_of :: "string \<Rightarrow> string" where
  "metadata_filename_of timestamp = ''metadata_'' @ timestamp @ ''.json''"

text \<open>
  \<open>CustomSMTPHandler.deliver_to_mailbox\<close>. The handler of its \<open>try\<close> logs the exception
  and raises it again.
\<close>

definition deliver_body :: "env \<Rightarrow> string \<Rightarrow> string \<Rightarrow> string \<Rightarrow> string \<Rightarrow> string \<Rightarrow> (unit, world) io" where
  "deliver_body E mailbox_dir recipient sender subject raw_data =
     (let recipient_safe = encode recipient;
          recipient_mailbox = os_path_join mailbox_dir recipient_safe
      in bind (os_path_exists recipient_mailbox) (\<lambda>ex.
         bind (if \<not> ex then os_makedirs E recipient_mailbox else ret ()) (\<lambda>_.
         bind (datetime_now E) (\<lambda>t1.
           let timestamp = strftime_stamp t1;
               email_filename = email_filename_of timestamp;
               email_path = os_path_join recipient_mailbox email_filename
           in bind (write_file E email_path (RawData raw_data)) (\<lambda>_.
              bind (datetime_now E) (\<lambda>t2.
                let metadata = [(''timestamp'', JStr (isoformat t2)), (''from'', JStr sender),
                                (''to'', JStr recipient), (''subject'', JStr subject),
                                (''filename'', JStr email_filename)];
                    metadata_path =
                      os_path_join recipient_mailbox (metadata_filename_of timestamp)
                in bind (write_file E metadata_path (JsonData metadata)) (\<lambda>_.
                   logging (Info_Saved email_path))))))))"

definition deliver_to_mailbox :: "env \<Rightarrow> string \<Rightarrow> string \<Rightarrow> string \<Rightarrow> string \<Rightarrow> string \<Rightarrow> (unit, world) io" where
  "deliver_to_mailbox E mailbox_dir recipient sender subject raw_data =
     try_except (deliver_body E mailbox_dir recipient sender subject raw_data)
       (\<lambda>e. bind (logging (Error_Delivering e)) (\<lambda>_. raise e))"

text \<open>The \<open>for recipient in rcpttos\<close> loop of \<open>handle_DATA\<close>.\<close>

primrec deliver_loop :: "env \<Rightarrow> string \<Rightarrow> string \<Rightarrow> string \<Rightarrow> string \<Rightarrow> string list \<Rightarrow> (unit, world) io" where
  "deliver_loop E mailbox_dir mailfrom subject data [] = ret ()"
| "deliver_loop E mailbox_dir mailfrom subject data (recipient # rest) =
     bind (lift (validate_email recipient)) (\<lambda>ok.
     bind (if ok
           then bind (deliver_to_mailbox E mailbox_dir recipient mailfrom subject data)
                  (\<lambda>_. logging (Info_Delivered recipient))
           else logging (Warning_InvalidRecipient recipient)) (\<lambda>_.
     deliver_loop E mailbox_dir mailfrom subject data rest))"

text \<open>
  The statements of \<open>handle_DATA\<close> in front of the loop: the log lines, the parse, and
  the four reads \<open>msg.get('Subject', ...)\<close>, \<open>msg.get('From', ...)\<close>, \<open>msg.get('To', ...)\<close>
  and \<open>msg.get('Date', datetime.now().strftime(...))\<close>. Only the subject is used later.
  The default of the last read is evaluated before the read, whether or not the header is
  there, so the clock is read once. The lines \<open>_gui_log\<close> copies to the optional
  queue of the user interface repeat the log and are left out.
\<close>

definition before_loop :: "env \<Rightarrow> envelope \<Rightarrow> (string, world) io" where
  "before_loop E envl =
     bind (logging Info_Receiving) (\<lambda>_.
     bind (logging (Info_Sender (mail_from envl))) (\<lambda>_.
     bind (logging (Info_Recipients (rcpt_tos envl))) (\<lambda>_.
     bind (lift (parsestr E (content envl))) (\<lambda>msg.
     bind (lift (msg ''Subject'')) (\<lambda>subject_header.
       let subject = (case subject_header of None \<Rightarrow> ''No Subject'' | Some v \<Rightarrow> v)
       in bind (lift (msg ''From'')) (\<lambda>from_addr.
          bind (lift (msg ''To'')) (\<lambda>to_addrs.
          bind (datetime_now E) (\<lambda>now.
          bind (lift (msg ''Date'')) (\<lambda>date.
          bind (logging (Info_Subject subject)) (\<lambda>_.
          ret subject))))))))))"

definition handle_DATA_body :: "env \<Rightarrow> string \<Rightarrow> envelope \<Rightarrow> (string, world) io" where
  "handle_DATA_body E mailbox_dir envl =
     bind (before_loop E envl) (\<lambda>subject.
     bind (deliver_loop E mailbox_dir (mail_from envl) subject (content envl) (rcpt_tos envl)) (\<lambda>_.
     bind (logging Info_Completed) (\<lambda>_.
     ret ''250 Message accepted for delivery'')))"

text \<open>
  \<open>CustomSMTPHandler.handle_DATA\<close>: any exception of the body is logged and answered
  with the 550 status, so the handler itself always returns a status line.
\<close>

definition handle_DATA :: "env \<Rightarrow> string \<Rightarrow> envelope \<Rightarrow> world \<Rightarrow> string \<times> world" where
  "handle_DATA E mailbox_dir envl w =
     (case handle_DATA_body E mailbox_dir envl w of
        (Inr status, w') \<Rightarrow> (status, w')
      | (Inl e, w') \<Rightarrow> (''550 Error processing message'', w'\<lparr>logs := logs w' @ [Error_Processing e]\<rparr>))"

section \<open>The mailbox view\<close>

text \<open>
  \<open>os.listdir(p)\<close>: the names in \<open>p\<close>, in an order of the operating system's choosing,
  which is therefore the parameter \<open>listdir\<close>; the call raises for a path that is not a
  directory, and the operating system may refuse it.
\<close>

definition os_listdir :: "(string \<Rightarrow> py_error + string list) \<Rightarrow> world \<Rightarrow> string \<Rightarrow> py_error + string list" where
  "os_listdir listdir w p = (if p \<in> dirs w then listdir p else Inl (OSError p))"

text \<open>
  \<open>open(p, 'r')\<close> and \<open>json.load\<close> of a stored file: a missing file and a file that
  holds no JSON text raise.
\<close>

definition read_json :: "world \<Rightarrow> string \<Rightarrow> py_error + metadata" where
  "read_json w p =
     (case files w p of
        None \<Rightarrow> Inl (OSError p)
      | Some (RawData _) \<Rightarrow> Inl (JSONDecodeError p)
      | Some (JsonData m) \<Rightarrow> Inr m)"

text \<open>
  The loop of \<open>load_emails\<close> over \<open>os.listdir(mailbox_path)\<close>: every name that ends in
  \<open>.json\<close> is loaded and appended, in the order of the listing.
\<close>

primrec load_metadata :: "world \<Rightarrow> string \<Rightarrow> string list \<Rightarrow> py_error + metadata list" where
  "load_metadata w mailbox_path [] = Inr []"
| "load_metadata w mailbox_path (file # rest) =
     (if suffix ''.json'' file then
        (case read_json w (os_path_join mailbox_path file) of
           Inl e \<Rightarrow> Inl e
         | Inr m \<Rightarrow>
             (case load_metadata w mailbox_path rest of
                Inl e \<Rightarrow> Inl e
              | Inr ms \<Rightarrow> Inr (m # ms)))
      else load_metadata w mailbox_path rest)"

text \<open>
  \<open>x.get(key, default)\<close> on a loaded object; of a key that the file repeats,
  \<open>json.load\<close> keeps the last value.
\<close>

definition dict_get :: "metadata \<Rightarrow> string \<Rightarrow> json_value \<Rightarrow> json_value" where
  "dict_get m key dflt = (case map_of (rev m) key of None \<Rightarrow> dflt | Some v \<Rightarrow> v)"

text \<open>The sort key \<open>x.get('timestamp', '')\<close>.\<close>

definition timestamp_key :: "metadata \<Rightarrow> json_value" where
  "timestamp_key x = dict_get x ''timestamp'' (JStr [])"

fun is_JStr :: "json_value \<Rightarrow> bool" where
  "is_JStr (JStr s) = True"
| "is_JStr _ = False"

fun is_JNum :: "json_value \<Rightarrow> bool" where
  "is_JNum (JNum n) = True"
| "is_JNum _ = False"

fun str_of :: "json_value \<Rightarrow> string" where
  "str_of (JStr s) = s"
| "str_of _ = []"

fun num_of :: "json_value \<Rightarrow> int" where
  "num_of (JNum n) = n"
| "num_of _ = 0"

text \<open>
  \<open>xs.sort(key=f, reverse=True)\<close> on comparable keys: the list is reversed, sorted by a
  stable ascending sort and reversed again.
\<close>

definition sort_reverse :: "('a \<Rightarrow> 'k::linorder) \<Rightarrow> 'a list \<Rightarrow> 'a list" where
  "sort_reverse f xs = rev (sort_key f (rev xs))"

text \<open>
  \<open>emails.sort(key=lambda x: x.get('timestamp', ''), reverse=True)\<close>. The keys are
  compared with \<open><\<close>, which orders strings among themselves and numbers among
  themselves and raises \<open>TypeError\<close> for every other pair. A list of at most one record
  is not compared at all; in a longer list every key is compared with another one, so the
  sort raises unless the keys are all strings or all numbers.
\<close>

definition sort_emails :: "metadata list \<Rightarrow> py_error + metadata list" where
  "sort_emails emails =
     (if length emails \<le> 1 then Inr emails
      else if list_all (\<lambda>x. is_JStr (timestamp_key x)) emails
        then Inr (sort_reverse (\<lambda>x. str_of (timestamp_key x)) emails)
      else if list_all (\<lambda>x. is_JNum (timestamp_key x)) emails
        then Inr (sort_reverse (\<lambda>x. num_of (timestamp_key x)) emails)
      else Inl (TypeError ''<''))"

text \<open>
  The loop that fills the message list: \<open>email.get('timestamp', '')[:19]\<close> raises
  \<open>TypeError\<close> for a timestamp that is not a string, and the rows inserted before stay.
  A row stands for the record it shows.
\<close>

primrec insert_rows :: "metadata list \<Rightarrow> (unit, metadata list) io" where
  "insert_rows [] = ret ()"
| "insert_rows (email # rest) =
     bind (case timestamp_key email of
             JStr ts \<Rightarrow> (\<lambda>tree. (Inr (), tree @ [email]))
           | _ \<Rightarrow> raise (TypeError ''[:19]'')) (\<lambda>_.
     insert_rows rest)"

text \<open>
  \<open>load_emails\<close>, for the selected mailbox: the outcome and the rows of the message
  list afterwards, in their order. The list is cleared first, so the rows it held before
  do not matter.
\<close>

definition load_emails :: "(string \<Rightarrow> py_error + string list) \<Rightarrow> world \<Rightarrow> string \<Rightarrow> (py_error + unit) \<times> metadata list" where
  "load_emails listdir w mailbox =
     (if mailbox = [] then (Inr (), [])
      else
        let mailbox_safe = encode mailbox;
            mailbox_path = os_path_join ''mailboxes'' mailbox_safe
        in if \<not> (mailbox_path \<in> dirs w \<or> files w mailbox_path \<noteq> None) then (Inr (), [])
           else (case os_listdir listdir w mailbox_path of
                   Inl e \<Rightarrow> (Inl e, [])
                 | Inr names \<Rightarrow>
                     (case load_metadata w mailbox_path names of
                        Inl e \<Rightarrow> (Inl e, [])
                      | Inr emails \<Rightarrow>
                          (case sort_emails emails of
                             Inl e \<Rightarrow> (Inl e, [])
                           | Inr sorted_emails \<Rightarrow> insert_rows sorted_emails []))))"

section \<open>The SMTP client\<close>

datatype recipients = Str string | List "string list"

datatype mime_part = MIMEText string | MIMEBase string string

record mime_message =
  headers :: "(string \<times> string) list"
  parts :: "mime_part list"

datatype client_log =
    Warning_AttachmentNotFound string
  | Info_Attached string
  | Error_Attaching string py_error
  | Info_Created string recipients string
  | Error_Creating py_error
  | Info_Connecting
  | Info_Sent "string list"
  | Print_Sent string "string list" string
  | Error_SMTP py_error
  | Print_SMTPError py_error
  | Error_Sending py_error
  | Print_Error py_error

text \<open>
  A path of the client's file system is absent, a file that can be read, or present but
  not readable (a directory, a file without read permission).
\<close>

datatype fs_entry = Absent | Readable string | Unreadable

text \<open>
  The client's surroundings: the file system, the rendered \<open>datetime.now()\<close> of the
  \<open>Date\<close> header, the transport \<open>smtplib.SMTP(...).sendmail\<close>, which either returns
  or raises, and standard output: \<open>print_error\<close> is the exception \<open>print\<close> raises for
  a text, if it raises. The text after a sent message begins with the check mark U+2713
  and the text of both handlers with the ballot cross U+2717, which a standard output
  with a legacy encoding cannot encode.
\<close>

record client_env =
  lookup :: "string \<Rightarrow> fs_entry"
  date_now :: string
  sendmail :: "string \<Rightarrow> string list \<Rightarrow> mime_message \<Rightarrow> py_error option"
  print_error :: "client_log \<Rightarrow> py_error option"

text \<open>
  A call of \<open>logging\<close> does not raise: the handlers of the \<open>logging\<close> module catch what
  goes wrong while a record is emitted.
\<close>

definition client_logging :: "client_log \<Rightarrow> (unit, client_log list) io" where
  "client_logging l ls = (Inr (), ls @ [l])"

text \<open>
  \<open>print(...)\<close>: what is printed is kept in the log list; a \<open>print\<close> that raises
  leaves no entry.
\<close>

definition client_print :: "client_env \<Rightarrow> client_log \<Rightarrow> (unit, client_log list) io" where
  "client_print E l ls =
     (case print_error E l of
        Some e \<Rightarrow> (Inl e, ls)
      | None \<Rightarrow> (Inr (), ls @ [l]))"

text \<open>\<open>os.path.basename(p)\<close>: what follows the last separator.\<close>

definition os_path_basename :: "string \<Rightarrow> string" where
  "os_path_basename p = rev (takeWhile (\<lambda>c. c \<noteq> CHR ''/'') (rev p))"

text \<open>\<open>SMTPClient._attach_file\<close>; the payload is carried base64-encoded.\<close>

definition attach_file :: "client_env \<Rightarrow> mime_message \<Rightarrow> string \<Rightarrow> (mime_message, client_log list) io" where
  "attach_file E msg file_path =
     try_except
       (bind (case lookup E file_path of
                Readable payload \<Rightarrow> ret payload
              | _ \<Rightarrow> raise (OSError file_path)) (\<lambda>payload.
          let filename = os_path_basename file_path;
              msg' = msg\<lparr>parts := parts msg @ [MIMEBase filename payload]\<rparr>
          in bind (client_logging (Info_Attached filename)) (\<lambda>_. ret msg')))
       (\<lambda>e. bind (client_logging (Error_Attaching file_path e)) (\<lambda>_. raise e))"

text \<open>The \<open>for file_path in attachments\<close> loop of \<open>create_email\<close>.\<close>

primrec attach_loop :: "client_env \<Rightarrow> string list \<Rightarrow> mime_message \<Rightarrow> (mime_message, client_log list) io" where
  "attach_loop E [] msg = ret msg"
| "attach_loop E (file_path # rest) msg =
     bind (if lookup E file_path \<noteq> Absent then attach_file E msg file_path
           else bind (client_logging (Warning_AttachmentNotFound file_path)) (\<lambda>_. ret msg))
       (\<lambda>msg'. attach_loop E rest msg')"

text \<open>
  \<open>SMTPClient.create_email\<close>; \<open>attachments\<close> is \<open>None\<close> or a list, and \<open>if attachments:\<close>
  skips both \<open>None\<close> and the empty list.
\<close>

definition create_email :: "client_env \<Rightarrow> string \<Rightarrow> recipients \<Rightarrow> string \<Rightarrow> string \<Rightarrow> string list option \<Rightarrow> (mime_message, client_log list) io" where
  "create_email E sender rcpts subject body attachments =
     try_except
       (let msg = \<lparr>headers =
                     [(''From'', sender),
                      (''To'', (case rcpts of List rs \<Rightarrow> str_join '', '' rs | Str r \<Rightarrow> r)),
                      (''Subject'', subject),
                      (''Date'', date_now E)],
                   parts = [MIMEText body]\<rparr>
        in bind (case attachments of
                   None \<Rightarrow> ret msg
                 | Some paths \<Rightarrow> if paths \<noteq> [] then attach_loop E paths msg else ret msg) (\<lambda>msg'.
           bind (client_logging (Info_Created sender rcpts subject)) (\<lambda>_.
           ret msg')))
       (\<lambda>e. bind (client_logging (Error_Creating e)) (\<lambda>_. raise e))"

text \<open>The recipient check of \<open>send_email\<close>: the first invalid address raises.\<close>

primrec check_recipients :: "string list \<Rightarrow> (unit, client_log list) io" where
  "check_recipients [] = ret ()"
| "check_recipients (recipient # rest) =
     bind (lift (validate_email recipient)) (\<lambda>ok.
       if \<not> ok then raise (ValueError recipient) else check_recipients rest)"

definition send_email_body :: "client_env \<Rightarrow> string \<Rightarrow> recipients \<Rightarrow> string \<Rightarrow> string \<Rightarrow> string list option \<Rightarrow> (bool, client_log list) io" where
  "send_email_body E sender rcpts subject body attachments =
     (let rcpt_list = (case rcpts of Str r \<Rightarrow> [r] | List rs \<Rightarrow> rs)
      in bind (lift (validate_email sender)) (\<lambda>ok.
         bind (if \<not> ok then raise (ValueError sender) else ret ()) (\<lambda>_.
         bind (check_recipients rcpt_list) (\<lambda>_.
         bind (create_email E sender (List rcpt_list) subject body attachments) (\<lambda>msg.
         bind (client_logging Info_Connecting) (\<lambda>_.
         bind (case sendmail E sender rcpt_list msg of
                 Some e \<Rightarrow> raise e
               | None \<Rightarrow> ret ()) (\<lambda>_.
         bind (client_logging (Info_Sent rcpt_list)) (\<lambda>_.
         bind (client_print E (Print_Sent sender rcpt_list subject)) (\<lambda>_.
         ret True)))))))))"

text \<open>
  \<open>SMTPClient.send_email\<close>: \<open>except smtplib.SMTPException\<close> comes first, \<open>except Exception\<close>
  takes every other exception; both log, print and return \<open>False\<close>. Nothing encloses
  the handlers, so an exception raised inside one of them leaves \<open>send_email\<close>.
\<close>

definition send_email :: "client_env \<Rightarrow> string \<Rightarrow> recipients \<Rightarrow> string \<Rightarrow> string \<Rightarrow> string list option \<Rightarrow> (bool, client_log list) io" where
  "send_email E sender rcpts subject body attachments =
     try_except (send_email_body E sender rcpts subject body attachments)
       (\<lambda>e. case e of
          SMTPException _ \<Rightarrow>
            bind (client_logging (Error_SMTP e)) (\<lambda>_.
            bind (client_print E (Print_SMTPError e)) (\<lambda>_. ret False))
        | _ \<Rightarrow>
            bind (client_logging (Error_Sending e)) (\<lambda>_.
            bind (client_print E (Print_Error e)) (\<lambda>_. ret False)))"

section \<open>Notions the statements use\<close>

text \<open>The image of one character under \<open>encode\<close>.\<close>

definition enc_char :: "char \<Rightarrow> string" where
  "enc_char c = (if c = CHR ''@'' then ''_at_'' else if c = CHR ''.'' then ''_'' else [c])"

text \<open>The first of the two replacements of \<open>decode\<close>.\<close>

definition unescape_at :: "string \<Rightarrow> string" where
  "unescape_at = str_replace ''_at_'' ''@''"

text \<open>What lies between the first \<open>@\<close> of a string and the next one (or the end).\<close>

definition first_domain_segment :: "string \<Rightarrow> string" where
  "first_domain_segment s =
     takeWhile (\<lambda>c. c \<noteq> CHR ''@'') (tl (dropWhile (\<lambda>c. c \<noteq> CHR ''@'') s))"

text \<open>
  A parsed message whose four headers the handler reads can all be read, and the subject
  the handler takes from it.
\<close>

definition headers_read :: "(string \<Rightarrow> py_error + string option) \<Rightarrow> bool" where
  "headers_read msg =
     (\<not> isl (msg ''Subject'') \<and> \<not> isl (msg ''From'') \<and> \<not> isl (msg ''To'')
      \<and> \<not> isl (msg ''Date''))"

definition subject_of :: "(string \<Rightarrow> py_error + string option) \<Rightarrow> string" where
  "subject_of msg = (case msg ''Subject'' of Inr (Some v) \<Rightarrow> v | _ \<Rightarrow> ''No Subject'')"

text \<open>
  The directory of a recipient, and the two paths a delivery that starts in state \<open>w\<close>
  writes: both are named after the clock reading the delivery takes first.
\<close>

definition mailbox_path_of :: "string \<Rightarrow> string \<Rightarrow> string" where
  "mailbox_path_of mailbox_dir recipient = os_path_join mailbox_dir (encode recipient)"

definition email_path_of :: "env \<Rightarrow> string \<Rightarrow> string \<Rightarrow> world \<Rightarrow> string" where
  "email_path_of E mailbox_dir recipient w =
     os_path_join (mailbox_path_of mailbox_dir recipient)
       (email_filename_of (strftime_stamp (clock E (ticks w))))"

definition metadata_path_of :: "env \<Rightarrow> string \<Rightarrow> string \<Rightarrow> world \<Rightarrow> string" where
  "metadata_path_of E mailbox_dir recipient w =
     os_path_join (mailbox_path_of mailbox_dir recipient)
       (metadata_filename_of (strftime_stamp (clock E (ticks w))))"

text \<open>
  The storage operations of one delivery that starts in state \<open>w\<close>, each with the state
  it is attempted in: \<open>os.makedirs\<close> when the mailbox directory is not there, then
  opening and writing the content file after the first clock reading, then opening and
  writing the metadata file after the second. The delivery is refused when the operating
  system refuses the first of them that is reached.
\<close>

definition mailbox_present :: "string \<Rightarrow> string \<Rightarrow> world \<Rightarrow> bool" where
  "mailbox_present mailbox_dir recipient w =
     (mailbox_path_of mailbox_dir recipient \<in> dirs w
      \<or> files w (mailbox_path_of mailbox_dir recipient) \<noteq> None)"

definition at_content_write :: "string \<Rightarrow> string \<Rightarrow> world \<Rightarrow> world" where
  "at_content_write mailbox_dir recipient w =
     w\<lparr>dirs := (if mailbox_present mailbox_dir recipient w then dirs w
                 else dirs w \<union> set (ancestors [] (mailbox_path_of mailbox_dir recipient))
                        \<union> {mailbox_path_of mailbox_dir recipient}),
        ticks := Suc (ticks w)\<rparr>"

definition at_metadata_write :: "env \<Rightarrow> string \<Rightarrow> string \<Rightarrow> string \<Rightarrow> world \<Rightarrow> world" where
  "at_metadata_write E mailbox_dir recipient raw_data w =
     (at_content_write mailbox_dir recipient w)
       \<lparr>files := (files w)(email_path_of E mailbox_dir recipient w \<mapsto> RawData raw_data),
        ticks := Suc (Suc (ticks w))\<rparr>"

definition refused :: "env \<Rightarrow> string \<Rightarrow> string \<Rightarrow> string \<Rightarrow> world \<Rightarrow> bool" where
  "refused E mailbox_dir recipient raw_data w =
     ((fault E w (Makedirs (mailbox_path_of mailbox_dir recipient))
         \<and> \<not> mailbox_present mailbox_dir recipient w)
      \<or> fault E (at_content_write mailbox_dir recipient w)
           (OpenWrite (email_path_of E mailbox_dir recipient w))
      \<or> fault E (at_content_write mailbox_dir recipient w)
           (WriteData (email_path_of E mailbox_dir recipient w))
      \<or> fault E (at_metadata_write E mailbox_dir recipient raw_data w)
           (OpenWrite (metadata_path_of E mailbox_dir recipient w))
      \<or> fault E (at_metadata_write E mailbox_dir recipient raw_data w)
           (WriteData (metadata_path_of E mailbox_dir recipient w)))"

text \<open>
  The state after one pass of the handler's loop in which nothing is refused: a valid
  recipient is delivered and reported, an invalid one is logged.
\<close>

definition delivered :: "env \<Rightarrow> string \<Rightarrow> string \<Rightarrow> string \<Rightarrow> string \<Rightarrow> string \<Rightarrow> world \<Rightarrow> world" where
  "delivered E mailbox_dir recipient sender subject raw_data w =
     w\<lparr>dirs := (if mailbox_path_of mailbox_dir recipient \<in> dirs w
                    \<or> files w (mailbox_path_of mailbox_dir recipient) \<noteq> None
                 then dirs w
                 else dirs w \<union> set (ancestors [] (mailbox_path_of mailbox_dir recipient))
                        \<union> {mailbox_path_of mailbox_dir recipient}),
        files := (files w)
          (email_path_of E mailbox_dir recipient w \<mapsto> RawData raw_data,
           metadata_path_of E mailbox_dir recipient w \<mapsto>
             JsonData [(''timestamp'', JStr (isoformat (clock E (Suc (ticks w))))),
                       (''from'', JStr sender), (''to'', JStr recipient), (''subject'', JStr subject),
                       (''filename'', JStr (email_filename_of (strftime_stamp (clock E (ticks w)))))]),
        ticks := Suc (Suc (ticks w)),
        logs := logs w @ [Info_Saved (email_path_of E mailbox_dir recipient w),
                          Info_Delivered recipient]\<rparr>"

definition loop_step :: "env \<Rightarrow> string \<Rightarrow> string \<Rightarrow> string \<Rightarrow> string \<Rightarrow> world \<Rightarrow> string \<Rightarrow> world" where
  "loop_step E mailbox_dir sender subject raw_data w recipient =
     (if validate_email recipient = Inr True
      then delivered E mailbox_dir recipient sender subject raw_data w
      else w\<lparr>logs := logs w @ [Warning_InvalidRecipient recipient]\<rparr>)"

text \<open>The recipient a log line reports as delivered.\<close>

fun delivered_to :: "server_log \<Rightarrow> string list" where
  "delivered_to (Info_Delivered r) = [r]"
| "delivered_to _ = []"

text \<open>The timestamp of a record whose timestamp is a string.\<close>

definition timestamp_of :: "metadata \<Rightarrow> string" where
  "timestamp_of x = str_of (timestamp_key x)"

text \<open>
  For an attachment path: whether \<open>os.path.exists\<close> holds, the part it becomes, and the
  log line it leaves.
\<close>

definition path_exists :: "client_env \<Rightarrow> string \<Rightarrow> bool" where
  "path_exists E p = (lookup E p \<noteq> Absent)"

definition attachment_part :: "client_env \<Rightarrow> string \<Rightarrow> mime_part" where
  "attachment_part E p =
     MIMEBase (os_path_basename p) (case lookup E p of Readable payload \<Rightarrow> payload | _ \<Rightarrow> [])"

definition attach_log :: "string \<Rightarrow> bool \<Rightarrow> client_log" where
  "attach_log p present =
     (if present then Info_Attached (os_path_basename p) else Warning_AttachmentNotFound p)"

text \<open>The list \<open>send_email\<close> makes of its recipients.\<close>

definition rcpt_list_of :: "recipients \<Rightarrow> string list" where
  "rcpt_list_of rcpts = (case rcpts of Str r \<Rightarrow> [r] | List rs \<Rightarrow> rs)"

section \<open>Concrete inputs\<close>

text \<open>
  A clock that gives one reading however often it is read, as a clock does whose
  resolution is coarser than a delivery is long.
\<close>

definition noon :: datetime where
  "noon = \<lparr>year = 2024, month = 1, day = 15, hour = 12, minute = 0, second = 0, microsecond = 0\<rparr>"

text \<open>
  Two environments with that clock and a parser that finds no header: one in which the
  operating system refuses nothing, one in which it refuses to open any file of the
  mailbox of \<open>a@x.com\<close> for writing.
\<close>

definition env_frozen :: env where
  "env_frozen = \<lparr>clock = (\<lambda>n. noon), fault = (\<lambda>w op. False),
                  parsestr = (\<lambda>s. Inr (\<lambda>h. Inr None))\<rparr>"

definition env_denied :: env where
  "env_denied = \<lparr>clock = (\<lambda>n. noon),
                  fault = (\<lambda>w op. case op of OpenWrite p \<Rightarrow> prefix ''mailboxes/a_at_x_com/'' p | _ \<Rightarrow> False),
                  parsestr = (\<lambda>s. Inr (\<lambda>h. Inr None))\<rparr>"

text \<open>The state a fresh server starts in: the mailbox directory, and nothing in it.\<close>

definition world_init :: world where
  "world_init = \<lparr>files = Map.empty, dirs = {''mailboxes''}, ticks = 0, logs = []\<rparr>"

definition envelope_invalid :: envelope where
  "envelope_invalid = \<lparr>mail_from = ''a@x.com'', rcpt_tos = [''not-an-address''], content = ''hello''\<rparr>"

definition envelope_two :: envelope where
  "envelope_two = \<lparr>mail_from = ''c@z.org'', rcpt_tos = [''a@x.com'', ''b@y.com''], content = ''hello''\<rparr>"

definition envelope_twice :: envelope where
  "envelope_twice = \<lparr>mail_from = ''c@z.org'', rcpt_tos = [''b@y.com'', ''b@y.com''], content = ''hello''\<rparr>"

text \<open>The state after a first message was delivered to \<open>b@y.com\<close>.\<close>

definition world_first :: world where
  "world_first =
     snd (deliver_to_mailbox env_frozen ''mailboxes'' ''b@y.com'' ''a@x.com'' ''First''
            ''first message'' world_init)"

text \<open>
  A mailbox with three messages. The first two were delivered one after the other on a
  clock that moved between the two file names and stood still afterwards, so their
  metadata carry the same timestamp; the third came seven seconds later.
\<close>

definition metadata_one :: metadata where
  "metadata_one = [(''timestamp'', JStr ''2024-01-15T12:00:00.000002''), (''from'', JStr ''a@x.com''),
                   (''to'', JStr ''b@y.com''), (''subject'', JStr ''One''),
                   (''filename'', JStr ''email_20240115_120000_000001.eml'')]"

definition metadata_two :: metadata where
  "metadata_two = [(''timestamp'', JStr ''2024-01-15T12:00:00.000002''), (''from'', JStr ''a@x.com''),
                   (''to'', JStr ''b@y.com''), (''subject'', JStr ''Two''),
                   (''filename'', JStr ''email_20240115_120000_000002.eml'')]"

definition metadata_late :: metadata where
  "metadata_late = [(''timestamp'', JStr ''2024-01-15T12:00:07''), (''from'', JStr ''a@x.com''),
                   (''to'', JStr ''b@y.com''), (''subject'', JStr ''Late''),
                   (''filename'', JStr ''email_20240115_120007_000000.eml'')]"

definition world_mailbox :: world where
  "world_mailbox =
     \<lparr>files = [''mailboxes/b_at_y_com/email_20240115_120000_000001.eml'' \<mapsto> RawData ''one'',
               ''mailboxes/b_at_y_com/metadata_20240115_120000_000001.json'' \<mapsto> JsonData metadata_one,
               ''mailboxes/b_at_y_com/email_20240115_120000_000002.eml'' \<mapsto> RawData ''two'',
               ''mailboxes/b_at_y_com/metadata_20240115_120000_000002.json'' \<mapsto> JsonData metadata_two,
               ''mailboxes/b_at_y_com/email_20240115_120007_000000.eml'' \<mapsto> RawData ''late'',
               ''mailboxes/b_at_y_com/metadata_20240115_120007_000000.json'' \<mapsto> JsonData metadata_late],
      dirs = {''mailboxes'', ''mailboxes/b_at_y_com''}, ticks = 0, logs = []\<rparr>"

text \<open>Two orders in which \<open>os.listdir\<close> may give that directory.\<close>

definition listing_forward :: "string \<Rightarrow> py_error + string list" where
  "listing_forward p = Inr
     [''email_20240115_120000_000001.eml'', ''metadata_20240115_120000_000001.json'',
      ''email_20240115_120000_000002.eml'', ''metadata_20240115_120000_000002.json'',
      ''email_20240115_120007_000000.eml'', ''metadata_20240115_120007_000000.json'']"

definition listing_backward :: "string \<Rightarrow> py_error + string list" where
  "listing_backward p = Inr
     [''metadata_20240115_120007_000000.json'', ''email_20240115_120007_000000.eml'',
      ''metadata_20240115_120000_000002.json'', ''email_20240115_120000_000002.eml'',
      ''metadata_20240115_120000_000001.json'', ''email_20240115_120000_000001.eml'']"

text \<open>
  A client whose file system has one readable file and the directory \<open>/tmp\<close>, whose
  transport delivers and whose standard output prints every text; and the same client
  with a standard output encoded in cp1252, as the redirected output of a Windows
  console is: \<open>print\<close> raises \<open>UnicodeEncodeError\<close> for each of the three texts of
  \<open>send_email\<close>, which begin with U+2713 or U+2717.
\<close>

definition client_env_demo :: client_env where
  "client_env_demo =
     \<lparr>lookup = (\<lambda>p. if p = ''/home/u/report.txt'' then Readable ''data''
                     else if p = ''/tmp'' then Unreadable else Absent),
      date_now = ''Mon, 15 Jan 2024 12:00:00 '',
      sendmail = (\<lambda>sender rcpt_list msg. None),
      print_error = (\<lambda>l. None)\<rparr>"

definition client_env_cp1252 :: client_env where
  "client_env_cp1252 =
     \<lparr>lookup = (\<lambda>p. if p = ''/home/u/report.txt'' then Readable ''data''
                     else if p = ''/tmp'' then Unreadable else Absent),
      date_now = ''Mon, 15 Jan 2024 12:00:00 '',
      sendmail = (\<lambda>sender rcpt_list msg. None),
      print_error = (\<lambda>l. Some (UnicodeEncodeError ''charmap''))\<rparr>"

section \<open>String primitives: basic facts\<close>

lemma str_replace_Nil [simp]: "old \<noteq> [] \<Longrightarrow> str_replace old new [] = []"
  by (simp add: str_replace.simps)

lemma str_replace_hit:
  "old \<noteq> [] \<Longrightarrow> str_replace old new (old @ s) = new @ str_replace old new s"
  by (subst str_replace.simps) simp

lemma str_replace_miss:
  "old \<noteq> [] \<Longrightarrow> \<not> prefix old (c # s) \<Longrightarrow>
     str_replace old new (c # s) = c # str_replace old new s"
  by (subst str_replace.simps) simp

lemma str_replace_char:
  "str_replace [c] new s = concat (map (\<lambda>x. if x = c then new else [x]) s)"
proof (induction s)
  case Nil
  show ?case by simp
next
  case (Cons x s)
  show ?case
  proof (cases "x = c")
    case True
    then show ?thesis using str_replace_hit [of "[c]" new s] Cons by simp
  next
    case False
    then show ?thesis using str_replace_miss [of "[c]" x s new] Cons by simp
  qed
qed

lemma str_in_char: "str_in [c] s = (c \<in> set s)"
  by (induction s) auto

lemma str_split_not_Nil: "str_split c s \<noteq> []"
  by (induction s) (auto split: list.splits)

lemma str_split_hd: "hd (str_split c s) = takeWhile (\<lambda>x. x \<noteq> c) s"
  by (induction s) (auto split: list.splits simp: str_split_not_Nil)

lemma str_split_tl:
  "c \<in> set s \<Longrightarrow> tl (str_split c s) = str_split c (tl (dropWhile (\<lambda>x. x \<noteq> c) s))"
  by (induction s) (auto split: list.splits simp: str_split_not_Nil)

lemma str_split_second:
  assumes "c \<in> set s"
  shows "py_index (str_split c s) (Suc 0) =
           Inr (takeWhile (\<lambda>x. x \<noteq> c) (tl (dropWhile (\<lambda>x. x \<noteq> c) s)))"
proof -
  let ?r = "tl (dropWhile (\<lambda>x. x \<noteq> c) s)"
  obtain p ps where e: "str_split c s = p # ps"
    using str_split_not_Nil [of c s] by (cases "str_split c s") auto
  have ps: "ps = str_split c ?r"
    using str_split_tl [OF assms] e by simp
  obtain q qs where q: "str_split c ?r = q # qs"
    using str_split_not_Nil [of c ?r] by (cases "str_split c ?r") auto
  show ?thesis
    using e ps q str_split_hd [of c ?r] by simp
qed

section \<open>Validation\<close>

lemma validate_email_eq:
  "validate_email s =
     Inr (CHR ''@'' \<in> set s \<and> CHR ''.'' \<in> set (first_domain_segment s))"
proof (cases "CHR ''@'' \<in> set s")
  case True
  then show ?thesis
    using str_split_second [OF True]
    by (simp add: validate_email_def str_in_char first_domain_segment_def)
next
  case False
  then show ?thesis by (simp add: validate_email_def str_in_char)
qed

lemma single_at_segment:
  assumes "count_list s CHR ''@'' = 1"
  shows "first_domain_segment s = after_last_at s"
proof -
  have "CHR ''@'' \<in> set s"
    using assms count_list_0_iff [of s "CHR ''@''"] by auto
  then obtain u v where s: "s = u @ CHR ''@'' # v" and u: "CHR ''@'' \<notin> set u"
    by (auto dest: split_list_first)
  have "count_list u CHR ''@'' = 0" using u by (simp add: count_list_0_iff)
  then have "count_list v CHR ''@'' = 0" using assms s by simp
  then have v: "CHR ''@'' \<notin> set v" by (simp add: count_list_0_iff)
  have nu: "x \<noteq> CHR ''@''" if "x \<in> set u" for x using u that by auto
  have nv: "x \<noteq> CHR ''@''" if "x \<in> set v" for x using v that by auto
  have d: "dropWhile (\<lambda>c. c \<noteq> CHR ''@'') s = CHR ''@'' # v"
    unfolding s using dropWhile_append2 [of u "\<lambda>c. c \<noteq> CHR ''@''" "CHR ''@'' # v"] nu
    by simp
  have t: "takeWhile (\<lambda>c. c \<noteq> CHR ''@'') v = v"
    using nv by (simp add: takeWhile_eq_all_conv)
  have "takeWhile (\<lambda>c. c \<noteq> CHR ''@'') (rev v) = rev v"
    using nv by (simp add: takeWhile_eq_all_conv)
  then have "takeWhile (\<lambda>c. c \<noteq> CHR ''@'') (rev s) = rev v"
    unfolding s using takeWhile_tail [of "\<lambda>c. c \<noteq> CHR ''@''" "CHR ''@''" "rev v" "rev u"]
    by simp
  then show ?thesis
    using d t by (simp add: first_domain_segment_def after_last_at_def)
qed

text \<open>
  C3, as the code has it. \<open>validate_email\<close> never raises, and it returns \<open>True\<close> exactly
  for the strings that contain an \<open>@\<close> and have a dot between the first \<open>@\<close> and the
  next one (or the end of the string). On strings with exactly one \<open>@\<close> this is the
  EmailAddress contract; a string with several \<open>@\<close> is accepted whenever its first
  domain segment has a dot.
\<close>

theorem validate_email_first_segment:
  "validate_email s =
     Inr (CHR ''@'' \<in> set s \<and> CHR ''.'' \<in> set (first_domain_segment s))
   \<and> (count_list s CHR ''@'' = 1 \<longrightarrow> validate_email s = Inr (EmailAddress_contract s))"
proof -
  have "validate_email s = Inr (EmailAddress_contract s)" if one: "count_list s CHR ''@'' = 1"
  proof -
    have "CHR ''@'' \<in> set s"
      using one count_list_0_iff [of s "CHR ''@''"] by auto
    then show ?thesis
      using one single_at_segment [OF one]
      by (simp add: validate_email_eq EmailAddress_contract_def)
  qed
  then show ?thesis using validate_email_eq by blast
qed

theorem validate_email_first_segment_witness:
  "count_list ''bob@mail.example.org'' CHR ''@'' = 1
   \<and> validate_email ''bob@mail.example.org'' = Inr True
   \<and> EmailAddress_contract ''bob@mail.example.org''"
proof -
  have one: "count_list ''bob@mail.example.org'' CHR ''@'' = 1" by simp
  have v: "validate_email ''bob@mail.example.org'' = Inr True" by code_simp
  have "validate_email ''bob@mail.example.org'' = Inr (EmailAddress_contract ''bob@mail.example.org'')"
    using one validate_email_first_segment [of "''bob@mail.example.org''"] by blast
  then show ?thesis using one v by simp
qed

text \<open>
  C3 as stated fails: \<open>a@b.c@d\<close> has two \<open>@\<close> and no dot after the last one, and is
  accepted.
\<close>

theorem validate_email_two_ats_accepted:
  "validate_email ''a@b.c@d'' = Inr True \<and> \<not> EmailAddress_contract ''a@b.c@d''"
  by code_simp

section \<open>The directory codec\<close>

lemma encode_concat: "encode a = concat (map enc_char a)"
  unfolding encode_def str_replace_char
  by (induction a) (auto simp: enc_char_def)

lemma encode_Nil [simp]: "encode [] = []"
  by (simp add: encode_concat)

lemma encode_Cons: "encode (c # s) = enc_char c @ encode s"
  by (simp add: encode_concat)

lemma unescape_at_Nil [simp]: "unescape_at [] = []"
  by (simp add: unescape_at_def)

lemma unescape_at_other: "x \<noteq> CHR ''_'' \<Longrightarrow> unescape_at (x # e) = x # unescape_at e"
  unfolding unescape_at_def by (rule str_replace_miss) auto

lemma unescape_at_token: "unescape_at (''_at_'' @ e) = CHR ''@'' # unescape_at e"
  unfolding unescape_at_def using str_replace_hit [of "''_at_''" "''@''" e] by simp

lemma unescape_at_underscore:
  "\<not> prefix ''at_'' e \<Longrightarrow> unescape_at (CHR ''_'' # e) = CHR ''_'' # unescape_at e"
  unfolding unescape_at_def by (rule str_replace_miss) auto

lemma unescape_at_captured:
  assumes "prefix ''at_'' e"
  shows "unescape_at (CHR ''_'' # e) = CHR ''@'' # unescape_at (drop 3 e)"
proof -
  obtain r where "e = ''at_'' @ r" using assms by (auto simp: prefix_def)
  then show ?thesis using unescape_at_token [of r] by simp
qed

lemma decode_map:
  "decode d = map (\<lambda>x. if x = CHR ''_'' then CHR ''.'' else x) (unescape_at d)"
proof -
  have "concat (map (\<lambda>x. if x = CHR ''_'' then ''.'' else [x]) xs) =
        map (\<lambda>x. if x = CHR ''_'' then CHR ''.'' else x) xs" for xs
    by (induction xs) auto
  then show ?thesis unfolding decode_def unescape_at_def str_replace_char by simp
qed

lemma decode_no_underscore: "CHR ''_'' \<notin> set (decode d)"
  by (auto simp: decode_map)

lemma prefix_at_encode:
  assumes "CHR ''_'' \<notin> set s"
  shows "prefix ''at_'' (encode s) = (prefix ''at.'' s \<or> prefix ''at@'' s)"
proof (cases s)
  case Nil
  then show ?thesis by simp
next
  case (Cons x s1)
  note c1 = Cons
  show ?thesis
  proof (cases s1)
    case Nil
    then show ?thesis using c1 by (auto simp: encode_Cons enc_char_def)
  next
    case (Cons y s2)
    note c2 = Cons
    show ?thesis
    proof (cases s2)
      case Nil
      then show ?thesis using c1 c2 by (auto simp: encode_Cons enc_char_def)
    next
      case (Cons z s3)
      then show ?thesis using c1 c2 assms by (auto simp: encode_Cons enc_char_def)
    qed
  qed
qed

lemma roundtrip_no_underscore:
  "CHR ''_'' \<notin> set a \<Longrightarrow>
     (decode (encode a) = a) = (\<not> str_in ''.at.'' a \<and> \<not> str_in ''.at@'' a)"
proof (induction a)
  case Nil
  show ?case by (simp add: decode_map)
next
  case (Cons c s)
  then have nu: "CHR ''_'' \<notin> set s" and c: "c \<noteq> CHR ''_''" by auto
  have IH: "(decode (encode s) = s) = (\<not> str_in ''.at.'' s \<and> \<not> str_in ''.at@'' s)"
    using Cons.IH nu by simp
  consider (at) "c = CHR ''@''" | (dot) "c = CHR ''.''"
    | (other) "c \<noteq> CHR ''@''" "c \<noteq> CHR ''.''"
    by blast
  then show ?case
  proof cases
    case at
    then have "decode (encode (c # s)) = c # decode (encode s)"
      using unescape_at_token [of "encode s"] by (simp add: encode_Cons enc_char_def decode_map)
    then show ?thesis using IH at by simp
  next
    case dot
    show ?thesis
    proof (cases "prefix ''at.'' s \<or> prefix ''at@'' s")
      case True
      then have "prefix ''at_'' (encode s)" using prefix_at_encode [OF nu] by simp
      then have "decode (encode (c # s)) = CHR ''@'' # decode (drop 3 (encode s))"
        using dot unescape_at_captured [of "encode s"]
        by (simp add: encode_Cons enc_char_def decode_map)
      then show ?thesis using dot True by auto
    next
      case False
      then have "\<not> prefix ''at_'' (encode s)" using prefix_at_encode [OF nu] by simp
      then have "decode (encode (c # s)) = c # decode (encode s)"
        using dot unescape_at_underscore [of "encode s"]
        by (simp add: encode_Cons enc_char_def decode_map)
      then show ?thesis using IH dot False by simp
    qed
  next
    case other
    then have "decode (encode (c # s)) = c # decode (encode s)"
      using c unescape_at_other [of c "encode s"]
      by (simp add: encode_Cons enc_char_def decode_map)
    then show ?thesis using IH other by simp
  qed
qed

text \<open>
  C1, as the code has it. Decoding an encoded address gives the address back exactly
  when the address has no underscore and no dot that is followed by \<open>at.\<close> or \<open>at@\<close>:
  an underscore always comes back as a dot, and \<open>.at.\<close> and \<open>.at@\<close> encode to text in
  which \<open>decode\<close> finds the token \<open>_at_\<close> where no \<open>@\<close> stood. This holds for every
  string, in particular for every address that satisfies the EmailAddress contract.
\<close>

theorem decode_encode_iff:
  "(decode (encode a) = a) =
     (\<not> str_in ''_'' a \<and> \<not> str_in ''.at.'' a \<and> \<not> str_in ''.at@'' a)"
proof (cases "CHR ''_'' \<in> set a")
  case True
  then have "decode (encode a) \<noteq> a"
    using decode_no_underscore [of "encode a"] by auto
  then show ?thesis using True by (simp add: str_in_char)
next
  case False
  then show ?thesis using roundtrip_no_underscore [of a] by (simp add: str_in_char)
qed

theorem decode_encode_iff_witness:
  "EmailAddress_contract ''bob.smith@mail.example.org''
   \<and> decode (encode ''bob.smith@mail.example.org'') = ''bob.smith@mail.example.org''"
proof -
  have "EmailAddress_contract ''bob.smith@mail.example.org''" by code_simp
  then show ?thesis
    using decode_encode_iff [of "''bob.smith@mail.example.org''"] by simp
qed

text \<open>
  C1 as stated fails: \<open>a_b@x.com\<close> satisfies the EmailAddress contract and comes back
  as \<open>a.b@x.com\<close>.
\<close>

theorem decode_encode_underscore_lost:
  "EmailAddress_contract ''a_b@x.com''
   \<and> decode (encode ''a_b@x.com'') = ''a.b@x.com''
   \<and> decode (encode ''a_b@x.com'') \<noteq> ''a_b@x.com''"
  by code_simp

section \<open>Statements in sequence\<close>

lemma bind_Inr: "m w = (Inr x, w') \<Longrightarrow> bind m f w = f x w'"
  by (simp add: bind_def)

lemma bind_Inl: "m w = (Inl e, w') \<Longrightarrow> bind m f w = (Inl e, w')"
  by (simp add: bind_def)

lemma bind_ret: "bind (ret x) f w = f x w"
  by (simp add: bind_def ret_def)

lemma bind_raise: "bind (raise e) f w = (Inl e, w)"
  by (simp add: bind_def raise_def)

lemma bind_lift:
  "bind (lift r) f w = (case r of Inl e \<Rightarrow> (Inl e, w) | Inr x \<Rightarrow> f x w)"
  by (simp add: bind_def lift_def split: sum.splits)

lemma bind_assoc: "bind (bind m f) g w = bind m (\<lambda>x. bind (f x) g) w"
  by (simp add: bind_def split: prod.splits sum.splits)

lemma bind_logging: "bind (logging l) f w = f () (w\<lparr>logs := logs w @ [l]\<rparr>)"
  by (simp add: bind_def logging_def)

lemma bind_datetime_now:
  "bind (datetime_now E) f w = f (clock E (ticks w)) (w\<lparr>ticks := Suc (ticks w)\<rparr>)"
  by (simp add: bind_def datetime_now_def)

lemma bind_os_path_exists:
  "bind (os_path_exists p) f w = f (p \<in> dirs w \<or> files w p \<noteq> None) w"
  by (simp add: bind_def os_path_exists_def)

lemmas io_defs = ret_def raise_def lift_def bind_def try_except_def logging_def
  datetime_now_def os_path_exists_def os_makedirs_def write_file_def

lemmas io_simps = bind_ret bind_raise bind_lift bind_assoc bind_logging bind_datetime_now
  bind_os_path_exists ret_def raise_def logging_def

section \<open>The handler without a valid recipient\<close>

lemma deliver_loop_append:
  "deliver_loop E md s subj d (pre @ rs) w =
     bind (deliver_loop E md s subj d pre) (\<lambda>_. deliver_loop E md s subj d rs) w"
proof (induction pre arbitrary: w)
  case Nil
  show ?case by (simp add: bind_ret)
next
  case (Cons r pre)
  show ?case
    by (cases "validate_email r")
       (auto simp: bind_def lift_def Cons split: prod.splits sum.splits)
qed

lemma deliver_loop_all_invalid:
  "\<forall>r\<in>set rs. validate_email r = Inr False \<Longrightarrow>
     deliver_loop E md s subj d rs w =
       (Inr (), w\<lparr>logs := logs w @ map Warning_InvalidRecipient rs\<rparr>)"
proof (induction rs arbitrary: w)
  case Nil
  show ?case by (simp add: ret_def)
next
  case (Cons r rs)
  then show ?case by (simp add: io_simps)
qed

lemma before_loop_returns:
  assumes "parsestr E (content envl) = Inr msg" and "headers_read msg"
  shows "before_loop E envl w =
           (Inr (subject_of msg),
            w\<lparr>logs := logs w @ [Info_Receiving, Info_Sender (mail_from envl),
                                 Info_Recipients (rcpt_tos envl), Info_Subject (subject_of msg)],
               ticks := Suc (ticks w)\<rparr>)"
proof -
  obtain a b c d where h: "msg ''Subject'' = Inr a" "msg ''From'' = Inr b"
      "msg ''To'' = Inr c" "msg ''Date'' = Inr d"
    using assms(2) unfolding headers_read_def
    by (metis sum.collapse(2))
  show ?thesis
    using assms(1) h
    by (cases a) (simp_all add: before_loop_def io_simps subject_of_def Let_def)
qed

lemma before_loop_raises:
  assumes "parsestr E (content envl) = Inl e
         \<or> (\<exists>msg. parsestr E (content envl) = Inr msg \<and> \<not> headers_read msg)"
  shows "\<exists>e'. fst (before_loop E envl w) = Inl e'"
proof (cases "parsestr E (content envl)")
  case (Inl e0)
  then show ?thesis by (simp add: before_loop_def io_simps)
next
  case (Inr msg)
  then have "\<not> headers_read msg" using assms by auto
  then show ?thesis
    using Inr
    by (auto simp: before_loop_def io_simps headers_read_def Let_def split: sum.splits)
qed

lemma before_loop_storage:
  "files (snd (before_loop E envl w)) = files w \<and> dirs (snd (before_loop E envl w)) = dirs w"
  by (simp add: before_loop_def io_simps Let_def split: sum.splits)

text \<open>
  C2, as the code has it. When no recipient of the envelope passes \<open>validate_email\<close>,
  \<open>handle_DATA\<close> writes no file and creates no directory, and it still answers 250
  when the content parses and its \<open>Subject\<close>, \<open>From\<close>, \<open>To\<close> and \<open>Date\<close> headers can be
  read; it answers 550 when the parse or one of these reads raises. The handler has no
  rejection for want of a valid recipient.
\<close>

theorem handle_DATA_no_valid_recipient:
  assumes "\<forall>r\<in>set (rcpt_tos envl). validate_email r = Inr False"
  shows "files (snd (handle_DATA E md envl w)) = files w
       \<and> dirs (snd (handle_DATA E md envl w)) = dirs w
       \<and> fst (handle_DATA E md envl w) =
           (case parsestr E (content envl) of
              Inl e \<Rightarrow> ''550 Error processing message''
            | Inr msg \<Rightarrow> if headers_read msg then ''250 Message accepted for delivery''
                        else ''550 Error processing message'')"
proof -
  obtain r0 w0 where b: "before_loop E envl w = (r0, w0)" by fastforce
  have st: "files w0 = files w \<and> dirs w0 = dirs w"
    using before_loop_storage [of E envl w] b by simp
  show ?thesis
  proof (cases "\<exists>msg. parsestr E (content envl) = Inr msg \<and> headers_read msg")
    case True
    then obtain msg where m: "parsestr E (content envl) = Inr msg" "headers_read msg" by blast
    show ?thesis
      using m before_loop_returns [OF m, of w] deliver_loop_all_invalid [OF assms]
      by (simp add: handle_DATA_def handle_DATA_body_def bind_def ret_def logging_def)
  next
    case False
    then have "parsestr E (content envl) = Inl (projl (parsestr E (content envl)))
         \<or> (\<exists>msg. parsestr E (content envl) = Inr msg \<and> \<not> headers_read msg)"
      by (cases "parsestr E (content envl)") auto
    then obtain e' where "fst (before_loop E envl w) = Inl e'"
      using before_loop_raises [of E envl _ w] by blast
    then have "r0 = Inl e'" using b by simp
    then show ?thesis
      using b st False
      by (cases "parsestr E (content envl)")
         (auto simp: handle_DATA_def handle_DATA_body_def bind_def)
  qed
qed

theorem handle_DATA_no_valid_recipient_witness:
  "rcpt_tos envelope_invalid = [''not-an-address'']
   \<and> validate_email ''not-an-address'' = Inr False
   \<and> files (snd (handle_DATA env_frozen ''mailboxes'' envelope_invalid world_init)) = files world_init
   \<and> dirs (snd (handle_DATA env_frozen ''mailboxes'' envelope_invalid world_init)) = dirs world_init
   \<and> fst (handle_DATA env_frozen ''mailboxes'' envelope_invalid world_init) =
       ''250 Message accepted for delivery''"
proof -
  have h: "\<forall>r\<in>set (rcpt_tos envelope_invalid). validate_email r = Inr False"
    by (simp add: envelope_invalid_def validate_email_eq)
  show ?thesis
    using h handle_DATA_no_valid_recipient [OF h, of env_frozen "''mailboxes''" world_init]
    by (simp add: env_frozen_def envelope_invalid_def headers_read_def)
qed

text \<open>
  C2 as stated fails: the only recipient is invalid and the message is accepted.
\<close>

theorem handle_DATA_accepts_without_valid_recipient:
  "validate_email ''not-an-address'' = Inr False
   \<and> fst (handle_DATA env_frozen ''mailboxes'' envelope_invalid world_init) =
       ''250 Message accepted for delivery''"
  by (simp add: validate_email_eq handle_DATA_def handle_DATA_body_def before_loop_def
        envelope_invalid_def env_frozen_def world_init_def io_defs Let_def)

section \<open>One delivery\<close>

lemma os_path_join_relative:
  "\<not> prefix ''/'' b \<Longrightarrow>
     os_path_join a b = (if a = [] \<or> suffix ''/'' a then a @ b else a @ ''/'' @ b)"
  by (simp add: os_path_join_def)

lemma email_metadata_paths_differ:
  "email_path_of E md r w \<noteq> metadata_path_of E md r w"
  by (simp add: email_path_of_def metadata_path_of_def os_path_join_relative
        email_filename_of_def metadata_filename_of_def)

text \<open>What a delivery leaves behind, whether it returns or raises.\<close>

lemma deliver_body_effect:
  assumes "deliver_body E md r s subj d w = (res, w')"
  shows "(\<forall>p. p \<noteq> email_path_of E md r w \<and> p \<noteq> metadata_path_of E md r w \<longrightarrow>
              files w' p = files w p)
       \<and> dirs w \<subseteq> dirs w'
       \<and> dirs w' \<subseteq> dirs w \<union> set (ancestors [] (mailbox_path_of md r))
                    \<union> {mailbox_path_of md r}
       \<and> (case res of
            Inl e \<Rightarrow> logs w' = logs w
          | Inr u \<Rightarrow>
              logs w' = logs w @ [Info_Saved (email_path_of E md r w)]
            \<and> ticks w' = Suc (Suc (ticks w))
            \<and> files w' (email_path_of E md r w) = Some (RawData d)
            \<and> files w' (metadata_path_of E md r w) =
                 Some (JsonData [(''timestamp'', JStr (isoformat (clock E (Suc (ticks w))))),
                                 (''from'', JStr s), (''to'', JStr r), (''subject'', JStr subj),
                                 (''filename'', JStr (email_filename_of (strftime_stamp (clock E (ticks w)))))]))"
  using assms email_metadata_paths_differ [of E md r w]
  unfolding deliver_body_def email_path_of_def metadata_path_of_def mailbox_path_of_def Let_def
  by (auto simp: io_defs split: if_splits sum.splits prod.splits)

lemma deliver_to_mailbox_eq:
  "deliver_to_mailbox E md r s subj d w =
     (case deliver_body E md r s subj d w of
        (Inl e, w') \<Rightarrow> (Inl e, w'\<lparr>logs := logs w' @ [Error_Delivering e]\<rparr>)
      | (Inr u, w') \<Rightarrow> (Inr u, w'))"
  by (simp add: deliver_to_mailbox_def try_except_def bind_logging raise_def
        split: prod.splits sum.splits)

lemma deliver_to_mailbox_frame:
  assumes "deliver_to_mailbox E md r s subj d w = (res, w')"
      and "p \<noteq> email_path_of E md r w" and "p \<noteq> metadata_path_of E md r w"
  shows "files w' p = files w p"
proof -
  obtain r0 w0 where b: "deliver_body E md r s subj d w = (r0, w0)" by fastforce
  have "files w0 p = files w p" using deliver_body_effect [OF b] assms(2,3) by blast
  moreover have "files w' = files w0"
    using assms(1) b by (cases r0) (auto simp: deliver_to_mailbox_eq)
  ultimately show ?thesis by simp
qed

lemma deliver_to_mailbox_raises:
  assumes "deliver_to_mailbox E md r s subj d w = (Inl e, w')"
  shows "logs w' = logs w @ [Error_Delivering e]"
proof -
  obtain r0 w0 where b: "deliver_body E md r s subj d w = (r0, w0)" by fastforce
  then have r0: "r0 = Inl e" and w': "w' = w0\<lparr>logs := logs w0 @ [Error_Delivering e]\<rparr>"
    using assms by (cases r0; auto simp: deliver_to_mailbox_eq)+
  have "logs w0 = logs w" using deliver_body_effect [OF b] r0 by simp
  then show ?thesis using w' by simp
qed

text \<open>
  What does hold of C10: a delivery that returns has written the content file and the
  metadata file, named after one reading of the clock, with the content file's name in
  the metadata; and it has changed no other path (\<open>deliver_to_mailbox_frame\<close>).
\<close>

lemma deliver_to_mailbox_returns:
  assumes "deliver_to_mailbox E md r s subj d w = (Inr u, w')"
  shows "files w' (email_path_of E md r w) = Some (RawData d)
       \<and> files w' (metadata_path_of E md r w) =
           Some (JsonData [(''timestamp'', JStr (isoformat (clock E (Suc (ticks w))))),
                           (''from'', JStr s), (''to'', JStr r), (''subject'', JStr subj),
                           (''filename'', JStr (email_filename_of (strftime_stamp (clock E (ticks w)))))])
       \<and> logs w' = logs w @ [Info_Saved (email_path_of E md r w)]
       \<and> ticks w' = Suc (Suc (ticks w))"
proof -
  obtain r0 w0 where b: "deliver_body E md r s subj d w = (r0, w0)" by fastforce
  then have r0: "r0 = Inr u" and w': "w' = w0"
    using assms by (cases r0; auto simp: deliver_to_mailbox_eq)+
  show ?thesis using deliver_body_effect [OF b] r0 w' by simp
qed

lemma deliver_to_mailbox_dirs:
  assumes "deliver_to_mailbox E md r s subj d w = (res, w')"
  shows "dirs w \<subseteq> dirs w'
       \<and> dirs w' \<subseteq> dirs w \<union> set (ancestors [] (mailbox_path_of md r)) \<union> {mailbox_path_of md r}"
proof -
  obtain r0 w0 where b: "deliver_body E md r s subj d w = (r0, w0)" by fastforce
  have "dirs w' = dirs w0"
    using assms b by (cases r0) (auto simp: deliver_to_mailbox_eq)
  then show ?thesis using deliver_body_effect [OF b] by simp
qed

text \<open>A delivery raises exactly when one of its storage operations is refused.\<close>

lemma deliver_body_raises_iff:
  "isl (fst (deliver_body E md r s subj d w)) = refused E md r d w"
  unfolding deliver_body_def refused_def at_metadata_write_def at_content_write_def
    mailbox_present_def email_path_of_def metadata_path_of_def mailbox_path_of_def Let_def
  by (auto simp: io_defs split: if_splits sum.splits prod.splits)

lemma deliver_to_mailbox_raises_iff:
  "(\<exists>e w'. deliver_to_mailbox E md r s subj d w = (Inl e, w')) = refused E md r d w"
proof -
  obtain r0 w0 where b: "deliver_body E md r s subj d w = (r0, w0)" by fastforce
  have "isl r0 = refused E md r d w"
    using deliver_body_raises_iff [of E md r s subj d w] b by simp
  then show ?thesis
    using b by (cases r0) (auto simp: deliver_to_mailbox_eq)
qed

text \<open>
  C4, as the code has it. When the operating system refuses a storage operation of the
  delivery to a valid recipient, after the recipients in front of it went through, the
  delivery raises, and \<open>handle_DATA\<close> answers 550 and ends in the state the failed
  delivery left: the recipients behind it are not looked at. The error is logged by
  \<open>deliver_to_mailbox\<close> and again by the handler. The failed delivery changed no file
  but at the content and the metadata path it computed for its recipient, and created no
  directory but that recipient's mailbox directory and its missing parents.
\<close>

theorem handle_DATA_delivery_failure_aborts:
  assumes prelude: "before_loop E envl w = (Inr subject, w1)"
      and split: "rcpt_tos envl = pre @ r # post"
      and earlier: "deliver_loop E md (mail_from envl) subject (content envl) pre w1 = (Inr (), w2)"
      and valid: "validate_email r = Inr True"
      and refusal: "refused E md r (content envl) w2"
  shows "\<exists>e w3.
           deliver_to_mailbox E md r (mail_from envl) subject (content envl) w2 = (Inl e, w3)
         \<and> handle_DATA E md envl w =
             (''550 Error processing message'', w3\<lparr>logs := logs w3 @ [Error_Processing e]\<rparr>)
         \<and> logs w3 = logs w2 @ [Error_Delivering e]
         \<and> (\<forall>p. p \<noteq> email_path_of E md r w2 \<and> p \<noteq> metadata_path_of E md r w2 \<longrightarrow>
                files w3 p = files w2 p)
         \<and> dirs w2 \<subseteq> dirs w3
         \<and> dirs w3 \<subseteq> dirs w2 \<union> set (ancestors [] (mailbox_path_of md r))
                      \<union> {mailbox_path_of md r}"
proof -
  let ?loop = "deliver_loop E md (mail_from envl) subject (content envl)"
  obtain e w3 where failure:
    "deliver_to_mailbox E md r (mail_from envl) subject (content envl) w2 = (Inl e, w3)"
    using refusal deliver_to_mailbox_raises_iff [of E md r "mail_from envl" subject "content envl" w2]
    by blast
  have step: "?loop (r # post) w2 = (Inl e, w3)"
    using valid failure by (simp add: bind_lift bind_assoc bind_Inl)
  have "?loop (rcpt_tos envl) w1 = (Inl e, w3)"
    unfolding split deliver_loop_append using earlier step by (simp add: bind_def)
  then have "handle_DATA_body E md envl w = (Inl e, w3)"
    using prelude by (simp add: handle_DATA_body_def bind_def)
  then have "handle_DATA E md envl w =
      (''550 Error processing message'', w3\<lparr>logs := logs w3 @ [Error_Processing e]\<rparr>)"
    by (simp add: handle_DATA_def)
  moreover have "logs w3 = logs w2 @ [Error_Delivering e]"
    using deliver_to_mailbox_raises [OF failure] .
  moreover have "files w3 p = files w2 p"
    if "p \<noteq> email_path_of E md r w2" "p \<noteq> metadata_path_of E md r w2" for p
    using deliver_to_mailbox_frame [OF failure that] .
  moreover note deliver_to_mailbox_dirs [OF failure]
  ultimately show ?thesis using failure by blast
qed

lemma stamp_noon: "strftime_stamp noon = ''20240115_120000_000000''"
  by (simp add: strftime_stamp_def noon_def pad2_def pad4_def pad6_def digit_def)

lemma iso_noon: "isoformat noon = ''2024-01-15T12:00:00''"
  by (simp add: isoformat_def noon_def pad2_def pad4_def pad6_def digit_def)

lemma encode_a: "encode ''a@x.com'' = ''a_at_x_com''" by code_simp
lemma encode_b: "encode ''b@y.com'' = ''b_at_y_com''" by code_simp
lemma valid_a: "validate_email ''a@x.com'' = Inr True" by code_simp
lemma valid_b: "validate_email ''b@y.com'' = Inr True" by code_simp

lemmas eval_simps = io_defs Let_def os_path_join_def email_filename_of_def
  metadata_filename_of_def stamp_noon iso_noon encode_a encode_b valid_a valid_b
  suffix_to_prefix

lemma env_denied_fields:
  "clock env_denied = (\<lambda>n. noon)"
  "fault env_denied w (Makedirs p) = False"
  "fault env_denied w (WriteData p) = False"
  "fault env_denied w (OpenWrite p) = prefix ''mailboxes/a_at_x_com/'' p"
  "parsestr env_denied = (\<lambda>s. Inr (\<lambda>h. Inr None))"
  by (simp_all add: env_denied_def)

lemma env_frozen_fields:
  "clock env_frozen = (\<lambda>n. noon)"
  "fault env_frozen w op = False"
  "parsestr env_frozen = (\<lambda>s. Inr (\<lambda>h. Inr None))"
  by (simp_all add: env_frozen_def)

text \<open>
  C4 as stated fails: the operating system refuses the files of \<open>a@x.com\<close>, and
  \<open>b@y.com\<close>, the valid recipient behind it, gets nothing; the status is 550.
\<close>

theorem handle_DATA_first_delivery_refused:
  "fst (handle_DATA env_denied ''mailboxes'' envelope_two world_init) =
     ''550 Error processing message''
   \<and> files (snd (handle_DATA env_denied ''mailboxes'' envelope_two world_init)) = Map.empty
   \<and> Info_Delivered ''b@y.com'' \<notin>
       set (logs (snd (handle_DATA env_denied ''mailboxes'' envelope_two world_init)))"
  by (simp add: handle_DATA_def handle_DATA_body_def before_loop_def deliver_to_mailbox_def
        deliver_body_def envelope_two_def world_init_def env_denied_fields eval_simps)

theorem handle_DATA_delivery_failure_aborts_witness:
  "rcpt_tos envelope_two = [] @ ''a@x.com'' # [''b@y.com'']
   \<and> validate_email ''a@x.com'' = Inr True
   \<and> fault env_denied
        \<lparr>files = Map.empty, dirs = {''mailboxes'', ''mailboxes/a_at_x_com''}, ticks = 2,
           logs = [Info_Receiving, Info_Sender ''c@z.org'',
                   Info_Recipients [''a@x.com'', ''b@y.com''], Info_Subject ''No Subject'']\<rparr>
        (OpenWrite ''mailboxes/a_at_x_com/email_20240115_120000_000000.eml'')
   \<and> handle_DATA env_denied ''mailboxes'' envelope_two world_init =
       (''550 Error processing message'',
        \<lparr>files = Map.empty, dirs = {''mailboxes'', ''mailboxes/a_at_x_com''}, ticks = 2,
           logs = [Info_Receiving, Info_Sender ''c@z.org'',
                   Info_Recipients [''a@x.com'', ''b@y.com''], Info_Subject ''No Subject'',
                   Error_Delivering (OSError ''mailboxes/a_at_x_com/email_20240115_120000_000000.eml''),
                   Error_Processing (OSError ''mailboxes/a_at_x_com/email_20240115_120000_000000.eml'')]\<rparr>)"
proof -
  let ?w1 = "\<lparr>files = Map.empty, dirs = {''mailboxes''}, ticks = Suc 0,
               logs = [Info_Receiving, Info_Sender ''c@z.org'',
                       Info_Recipients [''a@x.com'', ''b@y.com''], Info_Subject ''No Subject'']\<rparr>"
  let ?e = "OSError ''mailboxes/a_at_x_com/email_20240115_120000_000000.eml''"
  let ?w3 = "\<lparr>files = Map.empty, dirs = {''mailboxes'', ''mailboxes/a_at_x_com''}, ticks = 2,
               logs = [Info_Receiving, Info_Sender ''c@z.org'',
                       Info_Recipients [''a@x.com'', ''b@y.com''], Info_Subject ''No Subject'',
                       Error_Delivering ?e]\<rparr>"
  have m: "parsestr env_denied (content envelope_two) = Inr (\<lambda>h. Inr None)"
    by (simp add: env_denied_fields)
  have h1: "before_loop env_denied envelope_two world_init = (Inr ''No Subject'', ?w1)"
    using before_loop_returns [OF m, of world_init]
    by (simp add: headers_read_def subject_of_def envelope_two_def world_init_def)
  have h2: "rcpt_tos envelope_two = [] @ ''a@x.com'' # [''b@y.com'']"
    by (simp add: envelope_two_def)
  have h3: "deliver_loop env_denied ''mailboxes'' (mail_from envelope_two) ''No Subject''
              (content envelope_two) [] ?w1 = (Inr (), ?w1)"
    by (simp add: ret_def)
  have h4: "refused env_denied ''mailboxes'' ''a@x.com'' (content envelope_two) ?w1"
    by (simp add: refused_def at_content_write_def at_metadata_write_def mailbox_present_def
          email_path_of_def metadata_path_of_def mailbox_path_of_def envelope_two_def
          env_denied_fields eval_simps)
  have h5: "deliver_to_mailbox env_denied ''mailboxes'' ''a@x.com'' (mail_from envelope_two)
              ''No Subject'' (content envelope_two) ?w1 = (Inl ?e, ?w3)"
    by (simp add: deliver_to_mailbox_def deliver_body_def envelope_two_def env_denied_fields
          eval_simps) auto
  obtain e w3 where
    d: "deliver_to_mailbox env_denied ''mailboxes'' ''a@x.com'' (mail_from envelope_two)
          ''No Subject'' (content envelope_two) ?w1 = (Inl e, w3)"
    and h: "handle_DATA env_denied ''mailboxes'' envelope_two world_init =
          (''550 Error processing message'', w3\<lparr>logs := logs w3 @ [Error_Processing e]\<rparr>)"
    using handle_DATA_delivery_failure_aborts [OF h1 h2 h3 valid_a h4] by blast
  have "e = ?e" and "w3 = ?w3" using d [unfolded h5] by auto
  then show ?thesis
    using h h2 valid_a by (simp add: env_denied_fields)
qed

text \<open>
  C5 at its failing input. The envelope names \<open>b@y.com\<close> twice and the clock gives one
  reading throughout. Both deliveries are reported, both computed the file name
  \<open>email_20240115_120000_000000.eml\<close>, and the mailbox ends with one content file and
  one metadata file: the second delivery wrote over the first.
\<close>

theorem handle_DATA_same_instant_one_record:
  "fst (handle_DATA env_frozen ''mailboxes'' envelope_twice world_init) =
     ''250 Message accepted for delivery''
   \<and> logs (snd (handle_DATA env_frozen ''mailboxes'' envelope_twice world_init)) =
       [Info_Receiving, Info_Sender ''c@z.org'', Info_Recipients [''b@y.com'', ''b@y.com''],
        Info_Subject ''No Subject'',
        Info_Saved ''mailboxes/b_at_y_com/email_20240115_120000_000000.eml'',
        Info_Delivered ''b@y.com'',
        Info_Saved ''mailboxes/b_at_y_com/email_20240115_120000_000000.eml'',
        Info_Delivered ''b@y.com'', Info_Completed]
   \<and> dom (files (snd (handle_DATA env_frozen ''mailboxes'' envelope_twice world_init))) =
       {''mailboxes/b_at_y_com/email_20240115_120000_000000.eml'',
        ''mailboxes/b_at_y_com/metadata_20240115_120000_000000.json''}"
  by (simp add: handle_DATA_def handle_DATA_body_def before_loop_def deliver_to_mailbox_def
        deliver_body_def envelope_twice_def world_init_def env_frozen_fields eval_simps) auto

text \<open>
  C10 at its failing input. Two messages are delivered to \<open>b@y.com\<close> within one
  reading of the clock. The second delivery returns normally and creates no file: the
  set of stored paths is unchanged, and the content of the first message is replaced.
\<close>

theorem deliver_to_mailbox_same_instant_overwrites:
  "fst (deliver_to_mailbox env_frozen ''mailboxes'' ''b@y.com'' ''a@x.com'' ''First''
          ''first message'' world_init) = Inr ()
   \<and> files world_first ''mailboxes/b_at_y_com/email_20240115_120000_000000.eml'' =
       Some (RawData ''first message'')
   \<and> fst (deliver_to_mailbox env_frozen ''mailboxes'' ''b@y.com'' ''c@z.org'' ''Second''
          ''second message'' world_first) = Inr ()
   \<and> files (snd (deliver_to_mailbox env_frozen ''mailboxes'' ''b@y.com'' ''c@z.org'' ''Second''
          ''second message'' world_first))
        ''mailboxes/b_at_y_com/email_20240115_120000_000000.eml'' =
       Some (RawData ''second message'')
   \<and> dom (files (snd (deliver_to_mailbox env_frozen ''mailboxes'' ''b@y.com'' ''c@z.org''
          ''Second'' ''second message'' world_first))) = dom (files world_first)"
  by (simp add: world_first_def deliver_to_mailbox_def deliver_body_def world_init_def
        env_frozen_fields eval_simps)

section \<open>The order of the message list\<close>

lemma sort_reverse_sorted:
  "sorted_wrt (\<lambda>a b. f b \<le> f a) (sort_reverse f xs)"
proof -
  have "sorted (map f (sort_key f (rev xs)))" by (rule sorted_sort_key)
  then have "sorted_wrt (\<lambda>a b. f a \<le> f b) (sort_key f (rev xs))"
    by (simp add: sorted_wrt_map)
  then show ?thesis by (simp add: sort_reverse_def sorted_wrt_rev)
qed

lemma sort_reverse_stable:
  "filter (\<lambda>y. f y = k) (sort_reverse f xs) = filter (\<lambda>y. f y = k) xs"
proof -
  have "filter (\<lambda>y. f y = k) (sort_reverse f xs) =
        rev (filter (\<lambda>y. f y = k) (sort_key f (rev xs)))"
    by (simp add: sort_reverse_def rev_filter)
  also have "\<dots> = rev (filter (\<lambda>y. f y = k) (rev xs))"
    by (simp only: sort_key_stable)
  also have "\<dots> = filter (\<lambda>y. f y = k) xs"
    by (simp add: rev_filter)
  finally show ?thesis .
qed

lemma sort_reverse_mset: "mset (sort_reverse f xs) = mset xs"
  by (simp add: sort_reverse_def)

lemma sort_reverse_set: "set (sort_reverse f xs) = set xs"
  by (simp add: sort_reverse_def)

text \<open>The message list is filled to the end exactly when every timestamp is a string.\<close>

lemma insert_rows_returns:
  "insert_rows xs tree = (Inr (), rows) \<Longrightarrow>
     rows = tree @ xs \<and> list_all (\<lambda>x. is_JStr (timestamp_key x)) xs"
proof (induction xs arbitrary: tree)
  case Nil
  then show ?case by (simp add: ret_def)
next
  case (Cons x xs)
  show ?case
  proof (cases "timestamp_key x")
    case (JStr ts)
    then have "insert_rows xs (tree @ [x]) = (Inr (), rows)"
      using Cons.prems by (simp add: bind_def)
    then show ?thesis using Cons.IH JStr by fastforce
  next
    case (JNum n)
    then show ?thesis using Cons.prems by (simp add: bind_def raise_def)
  next
    case JNull
    then show ?thesis using Cons.prems by (simp add: bind_def raise_def)
  qed
qed

lemma sort_emails_strings:
  assumes "sort_emails emails = Inr sorted_emails"
      and "list_all (\<lambda>x. is_JStr (timestamp_key x)) sorted_emails"
  shows "sorted_emails = sort_reverse timestamp_of emails"
proof -
  have ts: "(\<lambda>x. str_of (timestamp_key x)) = timestamp_of"
    by (rule ext) (simp add: timestamp_of_def)
  have set_eq: "set sorted_emails = set emails"
    using assms(1) by (auto simp: sort_emails_def sort_reverse_set split: if_splits)
  then have all: "list_all (\<lambda>x. is_JStr (timestamp_key x)) emails"
    using assms(2) by (simp add: list_all_iff)
  show ?thesis
  proof (cases "length emails \<le> 1")
    case True
    then have "sort_reverse timestamp_of emails = emails"
      by (cases emails) (simp_all add: sort_reverse_def)
    then show ?thesis using assms(1) True by (simp add: sort_emails_def)
  next
    case False
    then show ?thesis using assms(1) all by (simp add: sort_emails_def ts)
  qed
qed

lemma load_emails_sorted_stable:
  assumes "load_emails listdir w mailbox = (Inr (), rows)"
  shows "sorted_wrt (\<lambda>a b. timestamp_of b \<le> timestamp_of a) rows
       \<and> (\<forall>names emails.
            mailbox \<noteq> []
          \<and> (mailbox_path_of ''mailboxes'' mailbox \<in> dirs w
             \<or> files w (mailbox_path_of ''mailboxes'' mailbox) \<noteq> None)
          \<and> os_listdir listdir w (mailbox_path_of ''mailboxes'' mailbox) = Inr names
          \<and> load_metadata w (mailbox_path_of ''mailboxes'' mailbox) names = Inr emails
          \<longrightarrow> mset rows = mset emails
            \<and> (\<forall>k. filter (\<lambda>x. timestamp_of x = k) rows =
                    filter (\<lambda>x. timestamp_of x = k) emails))"
proof -
  let ?p = "mailbox_path_of ''mailboxes'' mailbox"
  show ?thesis
  proof (cases "mailbox \<noteq> [] \<and> (?p \<in> dirs w \<or> files w ?p \<noteq> None)")
    case False
    then have "rows = []"
      using assms by (auto simp: load_emails_def mailbox_path_of_def Let_def split: if_splits)
    then show ?thesis using False by auto
  next
    case True
    then obtain names emails sorted_emails where n: "os_listdir listdir w ?p = Inr names"
      and l: "load_metadata w ?p names = Inr emails"
      and s: "sort_emails emails = Inr sorted_emails"
      and i: "insert_rows sorted_emails [] = (Inr (), rows)"
      using assms
      by (auto simp: load_emails_def mailbox_path_of_def Let_def split: if_splits sum.splits)
    have "rows = sorted_emails" and "list_all (\<lambda>x. is_JStr (timestamp_key x)) sorted_emails"
      using insert_rows_returns [OF i] by simp_all
    then have r: "rows = sort_reverse timestamp_of emails"
      using sort_emails_strings [OF s] by simp
    show ?thesis
      unfolding r using n l
      by (auto simp: sort_reverse_sorted sort_reverse_stable sort_reverse_mset)
  qed
qed

text \<open>
  \<open>load_emails\<close> raises for a mailbox path that is a regular file, and for a record
  whose timestamp is no string: a message list that was filled holds string timestamps
  only.
\<close>

lemma load_emails_not_a_directory:
  assumes "mailbox \<noteq> []"
      and "files w (mailbox_path_of ''mailboxes'' mailbox) \<noteq> None"
      and "mailbox_path_of ''mailboxes'' mailbox \<notin> dirs w"
  shows "load_emails listdir w mailbox = (Inl (OSError (mailbox_path_of ''mailboxes'' mailbox)), [])"
  using assms by (simp add: load_emails_def mailbox_path_of_def os_listdir_def Let_def)

lemma load_emails_rows_strings:
  assumes "load_emails listdir w mailbox = (Inr (), rows)"
  shows "list_all (\<lambda>x. is_JStr (timestamp_key x)) rows"
proof (cases "rows = []")
  case True
  then show ?thesis by simp
next
  case False
  then obtain sorted_emails where "insert_rows sorted_emails [] = (Inr (), rows)"
    using assms
    by (auto simp: load_emails_def Let_def split: if_splits sum.splits)
  then show ?thesis using insert_rows_returns by fastforce
qed

text \<open>
  C6, as the code has it. When \<open>load_emails\<close> returns, the rows of the message list are
  sorted by timestamp, latest first. They are the records loaded from the directory, and
  records with the same timestamp stay in the order in which the directory listing gave
  their files: the sort is stable and has no second key, so the file name decides
  nothing.
\<close>

theorem load_emails_order:
  "load_emails listdir w mailbox = (Inr (), rows) \<longrightarrow>
      sorted_wrt (\<lambda>a b. timestamp_of b \<le> timestamp_of a) rows
    \<and> (\<forall>names emails.
          mailbox \<noteq> []
        \<and> (mailbox_path_of ''mailboxes'' mailbox \<in> dirs w
           \<or> files w (mailbox_path_of ''mailboxes'' mailbox) \<noteq> None)
        \<and> os_listdir listdir w (mailbox_path_of ''mailboxes'' mailbox) = Inr names
        \<and> load_metadata w (mailbox_path_of ''mailboxes'' mailbox) names = Inr emails
        \<longrightarrow> mset rows = mset emails
          \<and> (\<forall>k. filter (\<lambda>x. timestamp_of x = k) rows =
                  filter (\<lambda>x. timestamp_of x = k) emails))"
  using load_emails_sorted_stable [of listdir w mailbox rows]
  by blast

lemma timestamp_keys:
  "timestamp_key metadata_one = JStr ''2024-01-15T12:00:00.000002''"
  "timestamp_key metadata_two = JStr ''2024-01-15T12:00:00.000002''"
  "timestamp_key metadata_late = JStr ''2024-01-15T12:00:07''"
  by (simp_all add: timestamp_key_def dict_get_def metadata_one_def metadata_two_def
        metadata_late_def)

lemma timestamps_compared:
  "timestamp_of metadata_one = timestamp_of metadata_two"
  "timestamp_of metadata_one \<le> timestamp_of metadata_late"
  "\<not> timestamp_of metadata_late \<le> timestamp_of metadata_one"
  "timestamp_of metadata_two \<le> timestamp_of metadata_late"
  "\<not> timestamp_of metadata_late \<le> timestamp_of metadata_two"
  by (simp_all add: timestamp_of_def timestamp_keys)

lemma mailbox_exists:
  "os_path_join ''mailboxes'' ''b_at_y_com'' = ''mailboxes/b_at_y_com''"
  "''mailboxes/b_at_y_com'' \<in> dirs world_mailbox"
  by (simp_all add: os_path_join_def suffix_to_prefix world_mailbox_def)

lemma load_metadata_forward:
  "load_metadata world_mailbox ''mailboxes/b_at_y_com''
     [''email_20240115_120000_000001.eml'', ''metadata_20240115_120000_000001.json'',
      ''email_20240115_120000_000002.eml'', ''metadata_20240115_120000_000002.json'',
      ''email_20240115_120007_000000.eml'', ''metadata_20240115_120007_000000.json''] =
     Inr [metadata_one, metadata_two, metadata_late]"
  by (simp add: world_mailbox_def read_json_def os_path_join_def suffix_to_prefix)

lemma load_metadata_backward:
  "load_metadata world_mailbox ''mailboxes/b_at_y_com''
     [''metadata_20240115_120007_000000.json'', ''email_20240115_120007_000000.eml'',
      ''metadata_20240115_120000_000002.json'', ''email_20240115_120000_000002.eml'',
      ''metadata_20240115_120000_000001.json'', ''email_20240115_120000_000001.eml''] =
     Inr [metadata_late, metadata_two, metadata_one]"
  by (simp add: world_mailbox_def read_json_def os_path_join_def suffix_to_prefix)

lemma sort_emails_forward:
  "sort_emails [metadata_one, metadata_two, metadata_late] =
     Inr [metadata_late, metadata_one, metadata_two]"
  using timestamps_compared
  by (simp add: sort_emails_def sort_reverse_def timestamp_keys timestamp_of_def)

lemma sort_emails_backward:
  "sort_emails [metadata_late, metadata_two, metadata_one] =
     Inr [metadata_late, metadata_two, metadata_one]"
  using timestamps_compared
  by (simp add: sort_emails_def sort_reverse_def timestamp_keys timestamp_of_def)

lemma load_emails_forward:
  "load_emails listing_forward world_mailbox ''b@y.com'' =
     (Inr (), [metadata_late, metadata_one, metadata_two])"
  by (simp add: load_emails_def encode_b mailbox_exists os_listdir_def listing_forward_def
        load_metadata_forward sort_emails_forward timestamp_keys bind_def ret_def Let_def
      del: load_metadata.simps)

lemma load_emails_backward:
  "load_emails listing_backward world_mailbox ''b@y.com'' =
     (Inr (), [metadata_late, metadata_two, metadata_one])"
  by (simp add: load_emails_def encode_b mailbox_exists os_listdir_def listing_backward_def
        load_metadata_backward sort_emails_backward timestamp_keys bind_def ret_def Let_def
      del: load_metadata.simps)

text \<open>
  C6 as stated fails: two records carry the same timestamp, and the two orders in which
  the directory may be listed give the two orders of the records; listed forward, the
  record with the larger file name comes first.
\<close>

theorem load_emails_ties_follow_listing:
  "load_emails listing_forward world_mailbox ''b@y.com'' =
     (Inr (), [metadata_late, metadata_one, metadata_two])
   \<and> load_emails listing_backward world_mailbox ''b@y.com'' =
     (Inr (), [metadata_late, metadata_two, metadata_one])
   \<and> timestamp_of metadata_one = timestamp_of metadata_two
   \<and> dict_get metadata_one ''filename'' JNull = JStr ''email_20240115_120000_000001.eml''
   \<and> dict_get metadata_two ''filename'' JNull = JStr ''email_20240115_120000_000002.eml''
   \<and> ''email_20240115_120000_000001.eml'' < ''email_20240115_120000_000002.eml''"
  using load_emails_forward load_emails_backward timestamps_compared(1)
  by (simp add: dict_get_def metadata_one_def metadata_two_def)

theorem load_emails_order_witness:
  "load_emails listing_forward world_mailbox ''b@y.com'' =
     (Inr (), [metadata_late, metadata_one, metadata_two])
   \<and> sorted_wrt (\<lambda>a b. timestamp_of b \<le> timestamp_of a)
       [metadata_late, metadata_one, metadata_two]
   \<and> filter (\<lambda>x. timestamp_of x = timestamp_of metadata_one)
       [metadata_late, metadata_one, metadata_two] =
     filter (\<lambda>x. timestamp_of x = timestamp_of metadata_one)
       [metadata_one, metadata_two, metadata_late]"
proof -
  have p: "mailbox_path_of ''mailboxes'' ''b@y.com'' = ''mailboxes/b_at_y_com''"
    by (simp add: mailbox_path_of_def encode_b mailbox_exists)
  have "''b@y.com'' \<noteq> []
      \<and> (mailbox_path_of ''mailboxes'' ''b@y.com'' \<in> dirs world_mailbox
         \<or> files world_mailbox (mailbox_path_of ''mailboxes'' ''b@y.com'') \<noteq> None)
      \<and> os_listdir listing_forward world_mailbox (mailbox_path_of ''mailboxes'' ''b@y.com'') =
          Inr [''email_20240115_120000_000001.eml'', ''metadata_20240115_120000_000001.json'',
               ''email_20240115_120000_000002.eml'', ''metadata_20240115_120000_000002.json'',
               ''email_20240115_120007_000000.eml'', ''metadata_20240115_120007_000000.json'']
      \<and> load_metadata world_mailbox (mailbox_path_of ''mailboxes'' ''b@y.com'')
           [''email_20240115_120000_000001.eml'', ''metadata_20240115_120000_000001.json'',
            ''email_20240115_120000_000002.eml'', ''metadata_20240115_120000_000002.json'',
            ''email_20240115_120007_000000.eml'', ''metadata_20240115_120007_000000.json''] =
         Inr [metadata_one, metadata_two, metadata_late]"
    by (simp add: p mailbox_exists load_metadata_forward os_listdir_def listing_forward_def
          del: load_metadata.simps)
  then show ?thesis
    using load_emails_forward
      load_emails_order [of listing_forward world_mailbox "''b@y.com''"
        "[metadata_late, metadata_one, metadata_two]"]
    by blast
qed

section \<open>Composing a message\<close>

lemma attach_loop_readable:
  assumes "\<forall>p\<in>set paths. lookup E p \<noteq> Unreadable"
  shows "attach_loop E paths msg ls =
           (Inr (msg\<lparr>parts := parts msg @ map (attachment_part E) (filter (path_exists E) paths)\<rparr>),
            ls @ map (\<lambda>p. attach_log p (path_exists E p)) paths)"
  using assms
proof (induction paths arbitrary: msg ls)
  case Nil
  show ?case by (simp add: ret_def)
next
  case (Cons p paths)
  then have IH: "\<And>msg ls. attach_loop E paths msg ls =
      (Inr (msg\<lparr>parts := parts msg @ map (attachment_part E) (filter (path_exists E) paths)\<rparr>),
       ls @ map (\<lambda>p. attach_log p (path_exists E p)) paths)"
    by simp
  from Cons.prems have "lookup E p \<noteq> Unreadable" by simp
  then show ?case
    by (cases "lookup E p")
       (simp_all add: IH attach_file_def try_except_def bind_def ret_def raise_def
          client_logging_def path_exists_def [of E p] attachment_part_def [of E p]
          attach_log_def Let_def)
qed

lemma attach_loop_unreadable:
  assumes "p \<in> set paths" and "lookup E p = Unreadable"
  shows "\<exists>q. fst (attach_loop E paths msg ls) = Inl (OSError q)"
  using assms
proof (induction paths arbitrary: msg ls)
  case Nil
  then show ?case by simp
next
  case (Cons a paths)
  show ?case
  proof (cases "lookup E a")
    case Absent
    then have "p \<in> set paths" using Cons.prems by auto
    then show ?thesis
      using Cons.IH Cons.prems(2) Absent
      by (simp add: bind_def client_logging_def ret_def)
  next
    case (Readable payload)
    then have "p \<in> set paths" using Cons.prems by auto
    then show ?thesis
      using Cons.IH Cons.prems(2) Readable
      by (simp add: attach_file_def try_except_def bind_def client_logging_def ret_def Let_def)
  next
    case Unreadable
    then show ?thesis
      by (simp add: attach_file_def try_except_def bind_def client_logging_def raise_def)
  qed
qed

text \<open>
  C7, as the code has it. \<open>create_email\<close> skips an attachment path exactly when
  \<open>os.path.exists\<close> is false for it, with a warning in the log. When every path that
  exists can be read, the message is returned: the body, then the attachments that
  exist, in the order given. A path that exists and cannot be read makes
  \<open>create_email\<close> raise.
\<close>

theorem create_email_skips_missing:
  "((\<forall>p\<in>set paths. lookup E p \<noteq> Unreadable) \<longrightarrow>
      create_email E sender rcpts subject body (Some paths) ls =
        (Inr \<lparr>headers = [(''From'', sender),
                          (''To'', (case rcpts of List rs \<Rightarrow> str_join '', '' rs | Str r \<Rightarrow> r)),
                          (''Subject'', subject), (''Date'', date_now E)],
               parts = MIMEText body # map (attachment_part E) (filter (path_exists E) paths)\<rparr>,
         ls @ map (\<lambda>p. attach_log p (path_exists E p)) paths
            @ [Info_Created sender rcpts subject]))
   \<and> ((\<exists>p\<in>set paths. lookup E p = Unreadable) \<longrightarrow>
      (\<exists>q. fst (create_email E sender rcpts subject body (Some paths) ls) = Inl (OSError q)))"
proof (intro conjI impI)
  assume ok: "\<forall>p\<in>set paths. lookup E p \<noteq> Unreadable"
  show "create_email E sender rcpts subject body (Some paths) ls =
        (Inr \<lparr>headers = [(''From'', sender),
                          (''To'', (case rcpts of List rs \<Rightarrow> str_join '', '' rs | Str r \<Rightarrow> r)),
                          (''Subject'', subject), (''Date'', date_now E)],
               parts = MIMEText body # map (attachment_part E) (filter (path_exists E) paths)\<rparr>,
         ls @ map (\<lambda>p. attach_log p (path_exists E p)) paths
            @ [Info_Created sender rcpts subject])"
    using attach_loop_readable [OF ok]
    by (cases "paths = []")
       (simp_all add: create_email_def try_except_def bind_def ret_def client_logging_def Let_def)
next
  assume "\<exists>p\<in>set paths. lookup E p = Unreadable"
  then obtain p where p: "p \<in> set paths" "lookup E p = Unreadable" by blast
  then have ne: "paths \<noteq> []" by auto
  let ?msg = "\<lparr>headers = [(''From'', sender),
                          (''To'', (case rcpts of List rs \<Rightarrow> str_join '', '' rs | Str r \<Rightarrow> r)),
                          (''Subject'', subject), (''Date'', date_now E)],
               parts = [MIMEText body]\<rparr>"
  obtain q where "fst (attach_loop E paths ?msg ls) = Inl (OSError q)"
    using attach_loop_unreadable [OF p] by blast
  then have "fst (create_email E sender rcpts subject body (Some paths) ls) = Inl (OSError q)"
    using ne
    by (cases "attach_loop E paths ?msg ls")
       (simp add: create_email_def try_except_def bind_def raise_def client_logging_def Let_def)
  then show "\<exists>q. fst (create_email E sender rcpts subject body (Some paths) ls) = Inl (OSError q)"
    by blast
qed

lemma client_env_demo_fields:
  "lookup client_env_demo ''/missing/file.txt'' = Absent"
  "lookup client_env_demo ''/home/u/report.txt'' = Readable ''data''"
  "lookup client_env_demo ''/tmp'' = Unreadable"
  "date_now client_env_demo = ''Mon, 15 Jan 2024 12:00:00 ''"
  "sendmail client_env_demo sender rcpt_list msg = None"
  "print_error client_env_demo l = None"
  by (simp_all add: client_env_demo_def)

theorem create_email_skips_missing_witness:
  "lookup client_env_demo ''/missing/file.txt'' = Absent
   \<and> lookup client_env_demo ''/home/u/report.txt'' = Readable ''data''
   \<and> create_email client_env_demo ''a@x.com'' (List [''b@y.com'']) ''Hi'' ''Hello''
        (Some [''/missing/file.txt'', ''/home/u/report.txt'']) [] =
       (Inr \<lparr>headers = [(''From'', ''a@x.com''), (''To'', ''b@y.com''), (''Subject'', ''Hi''),
                         (''Date'', ''Mon, 15 Jan 2024 12:00:00 '')],
              parts = [MIMEText ''Hello'', MIMEBase ''report.txt'' ''data'']\<rparr>,
        [Warning_AttachmentNotFound ''/missing/file.txt'', Info_Attached ''report.txt'',
         Info_Created ''a@x.com'' (List [''b@y.com'']) ''Hi''])"
proof -
  have h: "\<forall>p\<in>set [''/missing/file.txt'', ''/home/u/report.txt''].
             lookup client_env_demo p \<noteq> Unreadable"
    by (simp add: client_env_demo_fields)
  have b: "os_path_basename ''/home/u/report.txt'' = ''report.txt''"
    by (simp add: os_path_basename_def)
  show ?thesis
    using h create_email_skips_missing [of "[''/missing/file.txt'', ''/home/u/report.txt'']"
        client_env_demo "''a@x.com''" "List [''b@y.com'']" "''Hi''" "''Hello''" "[]"]
    by (simp add: client_env_demo_fields path_exists_def attachment_part_def attach_log_def b)
qed

text \<open>C7 as stated fails: a directory exists and cannot be read as a file.\<close>

theorem create_email_unreadable_attachment_raises:
  "lookup client_env_demo ''/tmp'' = Unreadable
   \<and> create_email client_env_demo ''a@x.com'' (List [''b@y.com'']) ''Hi'' ''Hello''
        (Some [''/tmp'']) [] =
       (Inl (OSError ''/tmp''),
        [Error_Attaching ''/tmp'' (OSError ''/tmp''), Error_Creating (OSError ''/tmp'')])"
  by (simp add: create_email_def attach_file_def try_except_def bind_def raise_def ret_def
        client_logging_def client_env_demo_fields)

section \<open>Sending\<close>

lemma client_print_succeeds:
  "print_error E l = None \<Longrightarrow> client_print E l = client_logging l"
  by (rule ext) (simp add: client_print_def client_logging_def)

lemma send_email_result:
  assumes "\<forall>l. print_error E l = None"
  shows "(\<exists>b. fst (send_email E sender rcpts subject body attachments ls) = Inr b)
   \<and> (fst (send_email E sender rcpts subject body attachments ls) = Inr True
        \<longleftrightarrow> fst (send_email_body E sender rcpts subject body attachments ls) = Inr True)"
proof -
  obtain r ls' where b: "send_email_body E sender rcpts subject body attachments ls = (r, ls')"
    by fastforce
  show ?thesis
  proof (cases r)
    case (Inl e)
    then show ?thesis
      using b
      by (cases e)
         (auto simp: send_email_def try_except_def bind_def ret_def client_logging_def
            client_print_succeeds [OF assms [rule_format]])
  next
    case (Inr ok)
    then show ?thesis
      using b by (auto simp: send_email_def try_except_def)
  qed
qed

lemma send_email_False:
  assumes "\<forall>l. print_error E l = None"
      and "fst (send_email_body E sender rcpts subject body attachments ls) \<noteq> Inr True"
  shows "fst (send_email E sender rcpts subject body attachments ls) = Inr False"
  using assms(2) send_email_result [OF assms(1), of sender rcpts subject body attachments ls]
  by auto

lemma check_recipients_invalid:
  assumes "r \<in> set rs" and "validate_email r = Inr False"
  shows "\<exists>q. check_recipients rs ls = (Inl (ValueError q), ls)"
  using assms
proof (induction rs)
  case Nil
  then show ?case by simp
next
  case (Cons a rs)
  show ?case
  proof (cases "CHR ''@'' \<in> set a \<and> CHR ''.'' \<in> set (first_domain_segment a)")
    case True
    then have "validate_email a = Inr True" by (simp add: validate_email_eq)
    then show ?thesis using Cons by (auto simp: bind_def lift_def)
  next
    case False
    then have "validate_email a = Inr False" by (simp add: validate_email_eq)
    then show ?thesis by (simp add: bind_def lift_def raise_def)
  qed
qed

lemma send_email_body_invalid_sender:
  "validate_email sender = Inr False \<Longrightarrow>
     send_email_body E sender rcpts subject body attachments ls = (Inl (ValueError sender), ls)"
  by (simp add: send_email_body_def bind_def lift_def raise_def Let_def)

lemma send_email_body_invalid_recipient:
  assumes "r \<in> set (rcpt_list_of rcpts)" and "validate_email r = Inr False"
  shows "fst (send_email_body E sender rcpts subject body attachments ls) \<noteq> Inr True"
proof -
  obtain q where "check_recipients (rcpt_list_of rcpts) ls = (Inl (ValueError q), ls)"
    using check_recipients_invalid [OF assms] by blast
  then show ?thesis
    by (cases "validate_email sender")
       (auto simp: send_email_body_def rcpt_list_of_def bind_def lift_def raise_def ret_def
          Let_def)
qed

lemma send_email_body_transport_raises:
  assumes "\<forall>rcpt_list msg. sendmail E sender rcpt_list msg \<noteq> None"
  shows "fst (send_email_body E sender rcpts subject body attachments ls) \<noteq> Inr True"
  by (auto simp: assms [rule_format] send_email_body_def bind_def lift_def raise_def ret_def
        client_logging_def client_print_def Let_def
      split: sum.splits prod.splits option.splits if_splits)

text \<open>
  On a standard output that prints every text, \<open>send_email\<close> returns: \<open>True\<close> when its
  body ran to the end and \<open>False\<close> otherwise, in particular for an invalid sender, for an
  invalid recipient and for a transport that raises, whatever the exception.
\<close>

lemma send_email_returns_when_print_does:
  assumes "\<forall>l. print_error E l = None"
  shows "(\<exists>b. fst (send_email E sender rcpts subject body attachments ls) = Inr b)
   \<and> (fst (send_email E sender rcpts subject body attachments ls) = Inr True
        \<longleftrightarrow> fst (send_email_body E sender rcpts subject body attachments ls) = Inr True)
   \<and> (validate_email sender = Inr False \<longrightarrow>
        fst (send_email E sender rcpts subject body attachments ls) = Inr False)
   \<and> ((\<exists>r\<in>set (rcpt_list_of rcpts). validate_email r = Inr False) \<longrightarrow>
        fst (send_email E sender rcpts subject body attachments ls) = Inr False)
   \<and> ((\<forall>rcpt_list msg. sendmail E sender rcpt_list msg \<noteq> None) \<longrightarrow>
        fst (send_email E sender rcpts subject body attachments ls) = Inr False)"
proof (intro conjI impI)
  show "\<exists>b. fst (send_email E sender rcpts subject body attachments ls) = Inr b"
    using send_email_result [OF assms] by blast
  show "fst (send_email E sender rcpts subject body attachments ls) = Inr True
        \<longleftrightarrow> fst (send_email_body E sender rcpts subject body attachments ls) = Inr True"
    using send_email_result [OF assms] by blast
  show "fst (send_email E sender rcpts subject body attachments ls) = Inr False"
    if "validate_email sender = Inr False"
    using send_email_body_invalid_sender [OF that] by (intro send_email_False [OF assms]) simp
  show "fst (send_email E sender rcpts subject body attachments ls) = Inr False"
    if "\<exists>r\<in>set (rcpt_list_of rcpts). validate_email r = Inr False"
    using that send_email_body_invalid_recipient by (intro send_email_False [OF assms]) blast
  show "fst (send_email E sender rcpts subject body attachments ls) = Inr False"
    if "\<forall>rcpt_list msg. sendmail E sender rcpt_list msg \<noteq> None"
    using send_email_body_transport_raises [OF that] by (intro send_email_False [OF assms])
qed

text \<open>
  Whatever exception the body raises, the handler that takes it prints a text; when that
  \<open>print\<close> raises, its exception is what \<open>send_email\<close> raises.
\<close>

lemma send_email_handler_print_raises:
  assumes "send_email_body E sender rcpts subject body attachments ls = (Inl e, ls')"
      and "print_error E (Print_SMTPError e) = Some e'"
      and "print_error E (Print_Error e) = Some e'"
  shows "fst (send_email E sender rcpts subject body attachments ls) = Inl e'"
  using assms
  by (cases e)
     (simp_all add: send_email_def try_except_def bind_def client_logging_def client_print_def)

lemma client_env_cp1252_fields:
  "lookup client_env_cp1252 ''/home/u/report.txt'' = Readable ''data''"
  "date_now client_env_cp1252 = ''Mon, 15 Jan 2024 12:00:00 ''"
  "sendmail client_env_cp1252 sender rcpt_list msg = None"
  "print_error client_env_cp1252 l = Some (UnicodeEncodeError ''charmap'')"
  by (simp_all add: client_env_cp1252_def)

text \<open>
  C8 fails in the code. On a standard output encoded in cp1252, \<open>send_email\<close> called with
  an invalid sender raises \<open>UnicodeEncodeError\<close> to its caller: the \<open>ValueError\<close> of the
  check is caught and logged, and the \<open>print\<close> of the handler raises. Called with valid
  addresses it raises as well, after the transport has accepted the message: the \<open>print\<close>
  that reports the success raises, the handler takes that exception, and its own
  \<open>print\<close> raises again. No result is returned in either call.
\<close>

theorem send_email_raises_from_handler:
  "validate_email ''not-an-address'' = Inr False
   \<and> send_email client_env_cp1252 ''not-an-address'' (Str ''b@y.com'') ''Hi'' ''Hello'' None [] =
       (Inl (UnicodeEncodeError ''charmap''),
        [Error_Sending (ValueError ''not-an-address'')])
   \<and> send_email client_env_cp1252 ''a@x.com'' (Str ''b@y.com'') ''Hi'' ''Hello'' None [] =
       (Inl (UnicodeEncodeError ''charmap''),
        [Info_Created ''a@x.com'' (List [''b@y.com'']) ''Hi'', Info_Connecting,
         Info_Sent [''b@y.com''], Error_Sending (UnicodeEncodeError ''charmap'')])"
proof (intro conjI)
  show v: "validate_email ''not-an-address'' = Inr False"
    by (simp add: validate_email_eq)
  show "send_email client_env_cp1252 ''not-an-address'' (Str ''b@y.com'') ''Hi'' ''Hello'' None [] =
       (Inl (UnicodeEncodeError ''charmap''),
        [Error_Sending (ValueError ''not-an-address'')])"
    by (simp add: send_email_def send_email_body_def try_except_def bind_def lift_def ret_def
          raise_def client_logging_def client_print_def v client_env_cp1252_fields Let_def)
  show "send_email client_env_cp1252 ''a@x.com'' (Str ''b@y.com'') ''Hi'' ''Hello'' None [] =
       (Inl (UnicodeEncodeError ''charmap''),
        [Info_Created ''a@x.com'' (List [''b@y.com'']) ''Hi'', Info_Connecting,
         Info_Sent [''b@y.com''], Error_Sending (UnicodeEncodeError ''charmap'')])"
    by (simp add: send_email_def send_email_body_def create_email_def try_except_def bind_def
          lift_def ret_def raise_def client_logging_def client_print_def valid_a valid_b
          client_env_cp1252_fields Let_def)
qed

text \<open>
  C9. A recipient given as a string and the same recipient given as a one-element list
  are the same call of \<open>send_email\<close>: the same result, the same log. \<open>create_email\<close>
  called with either returns the same message or raises the same exception.
\<close>

theorem send_email_single_recipient:
  "send_email E sender (Str r) subject body attachments ls =
     send_email E sender (List [r]) subject body attachments ls
   \<and> fst (create_email E sender (Str r) subject body attachments ls) =
     fst (create_email E sender (List [r]) subject body attachments ls)"
proof
  show "send_email E sender (Str r) subject body attachments ls =
        send_email E sender (List [r]) subject body attachments ls"
    by (simp add: send_email_def send_email_body_def)
next
  let ?msg = "\<lparr>headers = [(''From'', sender), (''To'', r), (''Subject'', subject),
                           (''Date'', date_now E)],
                parts = [MIMEText body]\<rparr>"
  let ?att = "case attachments of None \<Rightarrow> ret ?msg
              | Some paths \<Rightarrow> if paths \<noteq> [] then attach_loop E paths ?msg else ret ?msg"
  obtain x ls' where a: "?att ls = (x, ls')" by fastforce
  show "fst (create_email E sender (Str r) subject body attachments ls) =
        fst (create_email E sender (List [r]) subject body attachments ls)"
    using a
    by (cases x)
       (simp_all add: create_email_def try_except_def bind_def ret_def raise_def
          client_logging_def Let_def)
qed

theorem send_email_single_recipient_witness:
  "send_email client_env_demo ''a@x.com'' (Str ''b@y.com'') ''Hi'' ''Hello'' None [] =
     send_email client_env_demo ''a@x.com'' (List [''b@y.com'']) ''Hi'' ''Hello'' None []
   \<and> send_email client_env_demo ''a@x.com'' (Str ''b@y.com'') ''Hi'' ''Hello'' None [] =
     (Inr True,
      [Info_Created ''a@x.com'' (List [''b@y.com'']) ''Hi'', Info_Connecting,
       Info_Sent [''b@y.com''], Print_Sent ''a@x.com'' [''b@y.com''] ''Hi''])"
proof -
  have "send_email client_env_demo ''a@x.com'' (List [''b@y.com'']) ''Hi'' ''Hello'' None [] =
     (Inr True,
      [Info_Created ''a@x.com'' (List [''b@y.com'']) ''Hi'', Info_Connecting,
       Info_Sent [''b@y.com''], Print_Sent ''a@x.com'' [''b@y.com''] ''Hi''])"
    by (simp add: send_email_def send_email_body_def create_email_def try_except_def bind_def
          lift_def ret_def raise_def client_logging_def client_print_def valid_a valid_b
          client_env_demo_fields Let_def)
  then show ?thesis
    using send_email_single_recipient [of client_env_demo "''a@x.com''" "''b@y.com''" "''Hi''"
        "''Hello''" None "[]"]
    by simp
qed

section \<open>Deliveries when nothing is refused\<close>

lemma deliver_step_no_fault:
  assumes "\<forall>w op. \<not> fault E w op"
  shows "bind (deliver_to_mailbox E md r s subj d) (\<lambda>_. logging (Info_Delivered r)) w =
           (Inr (), delivered E md r s subj d w)"
  using assms
  unfolding deliver_to_mailbox_def deliver_body_def delivered_def email_path_of_def
    metadata_path_of_def mailbox_path_of_def Let_def
  by (simp add: io_defs)

lemma deliver_loop_no_fault:
  assumes "\<forall>w op. \<not> fault E w op"
  shows "deliver_loop E md s subj d rs w = (Inr (), foldl (loop_step E md s subj d) w rs)"
proof (induction rs arbitrary: w)
  case Nil
  show ?case by (simp add: ret_def)
next
  case (Cons r rs)
  show ?case
  proof (cases "validate_email r = Inr True")
    case True
    then show ?thesis
      using deliver_step_no_fault [OF assms, of md r s subj d w] Cons
      by (simp add: lift_def loop_step_def bind_def)
  next
    case False
    then have "validate_email r = Inr False" by (auto simp: validate_email_eq)
    then show ?thesis using Cons by (simp add: bind_lift bind_logging loop_step_def)
  qed
qed

lemma foldl_loop_step_delivered:
  "concat (map delivered_to (logs (foldl (loop_step E md s subj d) w rs))) =
     concat (map delivered_to (logs w)) @ filter (\<lambda>r. validate_email r = Inr True) rs"
  by (induction rs arbitrary: w) (auto simp: loop_step_def delivered_def)

lemma foldl_loop_step_ticks:
  "ticks (foldl (loop_step E md s subj d) w rs) =
     ticks w + 2 * length (filter (\<lambda>r. validate_email r = Inr True) rs)"
  by (induction rs arbitrary: w) (auto simp: loop_step_def delivered_def)

text \<open>
  What does hold of C5: when the content parses and the operating system refuses
  nothing, \<open>handle_DATA\<close> answers 250 and reports one delivery for every valid
  recipient, in the order of the envelope, duplicates included; each delivery reads the
  clock twice.
\<close>

theorem handle_DATA_delivers_each_valid_recipient:
  assumes "\<forall>w op. \<not> fault E w op"
      and "parsestr E (content envl) = Inr msg"
      and "headers_read msg"
  shows "fst (handle_DATA E md envl w) = ''250 Message accepted for delivery''
       \<and> concat (map delivered_to (logs (snd (handle_DATA E md envl w)))) =
           concat (map delivered_to (logs w))
             @ filter (\<lambda>r. validate_email r = Inr True) (rcpt_tos envl)
       \<and> ticks (snd (handle_DATA E md envl w)) =
           Suc (ticks w) + 2 * length (filter (\<lambda>r. validate_email r = Inr True) (rcpt_tos envl))"
proof -
  obtain subject w1 where p: "before_loop E envl w = (Inr subject, w1)"
    and l1: "concat (map delivered_to (logs w1)) = concat (map delivered_to (logs w))"
    and t1: "ticks w1 = Suc (ticks w)"
    using before_loop_returns [OF assms(2,3), of w] by simp
  let ?w2 = "foldl (loop_step E md (mail_from envl) subject (content envl)) w1 (rcpt_tos envl)"
  have "handle_DATA E md envl w =
          (''250 Message accepted for delivery'', ?w2\<lparr>logs := logs ?w2 @ [Info_Completed]\<rparr>)"
    using p deliver_loop_no_fault [OF assms(1)]
    by (simp add: handle_DATA_def handle_DATA_body_def bind_def logging_def ret_def)
  then show ?thesis
    using l1 t1 by (simp add: foldl_loop_step_delivered foldl_loop_step_ticks)
qed

end
